theory Spec2Isabelle
  imports Complex_Main
begin

section \<open>Referring-expression dataset: region alignment and packing\<close>

text \<open>
  A shallow embedding of \<^verbatim>\<open>src/model/rec_dataset.py\<close>: the overlap function
  \<^verbatim>\<open>iou\<close>, the caption packing of \<^verbatim>\<open>ReferExpressionDataset.tokenize\<close> and
  the per-index fetch \<^verbatim>\<open>ReferExpressionDataset.__getitem__\<close>.

  Modelling conventions.
  \<^item> Python integers are \<open>int\<close>; lists and the rows of arrays are HOL lists. A
    two-dimensional array is the list of its rows; the column counts of the arrays read
    from the region stores (2048, 5, 4) are fixed by the readers and are not re-checked.
  \<^item> A floating-point number is the real number it denotes, and every floating-point
    operation is the exact operation followed by the rounding of its format. The two
    rounding functions, to binary32 and to binary64, are fields of a \<open>runtime\<close> that
    every numeric function takes; nothing is assumed about them in the definitions. The
    store rows are binary32 arrays, the target box and the arithmetic on it are binary64,
    and the target tensor is binary32. The outcomes of a division by zero (not-a-number,
    signed infinity) are separate values of the type \<open>fl\<close>, because NumPy returns them
    instead of raising.
  \<^item> Every exception is a value of the type \<open>error\<close>, returned as \<open>Inl\<close>.
\<close>

subsection \<open>Errors and float results\<close>

datatype error =
    IndexError            \<comment> \<open>\<^verbatim>\<open>self.entries[index]\<close> out of range\<close>
  | KeyError              \<comment> \<open>a region store has no entry for the image id\<close>
  | AssertionError        \<comment> \<open>\<^verbatim>\<open>assert_eq\<close> failed\<close>
  | NegativeDimensions    \<comment> \<open>\<^verbatim>\<open>np.zeros\<close> with a negative dimension\<close>
  | BroadcastError        \<comment> \<open>NumPy slice assignment with rows that do not broadcast\<close>
  | SetValueShapeError    \<comment> \<open>Paddle slice assignment with rows that do not broadcast\<close>

datatype fl = Val real | PInf | NInf | NaN

record runtime =
  \<comment> \<open>What the interpreter and its libraries add to the source: the rounding of the two
      float formats, and the content of tensor rows that an assignment leaves unwritten.\<close>
  f32 :: "real \<Rightarrow> real"
  f64 :: "real \<Rightarrow> real"
  uninitialised :: "nat \<Rightarrow> fl list"

definition fl_div :: "(real \<Rightarrow> real) \<Rightarrow> real \<Rightarrow> real \<Rightarrow> fl" where
  \<comment> \<open>\<^verbatim>\<open>x / y\<close> on float arrays, rounded by \<open>r\<close>: a zero divisor gives nan or a signed
      infinity.\<close>
  "fl_div r x y =
     (if y \<noteq> 0 then Val (r (x / y))
      else if x = 0 then NaN
      else if 0 < x then PInf else NInf)"

fun fl_lt :: "fl \<Rightarrow> real \<Rightarrow> bool" where
  \<comment> \<open>\<^verbatim>\<open>a < c\<close> elementwise: every comparison with nan is false.\<close>
  "fl_lt (Val v) c = (v < c)"
| "fl_lt PInf c = False"
| "fl_lt NInf c = True"
| "fl_lt NaN c = False"

fun to32 :: "runtime \<Rightarrow> fl \<Rightarrow> fl" where
  \<comment> \<open>The conversion of a binary64 element to binary32 when it is stored in the target
      tensor.\<close>
  "to32 rt (Val v) = Val (f32 rt v)"
| "to32 rt PInf = PInf"
| "to32 rt NInf = NInf"
| "to32 rt NaN = NaN"

subsection \<open>Python slices and slice assignment\<close>

definition slice_stop :: "int \<Rightarrow> nat \<Rightarrow> nat" where
  \<comment> \<open>The number of elements of \<^verbatim>\<open>xs[:n]\<close> for a sequence of length \<open>len\<close>: a negative
      \<open>n\<close> counts from the end, and both ends are clamped into the sequence.\<close>
  "slice_stop n len = (if n < 0 then nat (int len + n) else min (nat n) len)"

definition py_upto :: "int \<Rightarrow> 'a list \<Rightarrow> 'a list" where
  \<comment> \<open>\<^verbatim>\<open>xs[:n]\<close>\<close>
  "py_upto n xs = take (slice_stop n (length xs)) xs"

definition py_from1_upto :: "int \<Rightarrow> 'a list \<Rightarrow> 'a list" where
  \<comment> \<open>\<^verbatim>\<open>xs[1:n]\<close>\<close>
  "py_from1_upto n xs = drop 1 (take (slice_stop n (length xs)) xs)"

definition py_index :: "'a list \<Rightarrow> int \<Rightarrow> 'a option" where
  \<comment> \<open>\<^verbatim>\<open>xs[i]\<close>: a negative index counts from the end; out of range raises.\<close>
  "py_index xs i =
     (let n = int (length xs); j = (if i < 0 then n + i else i)
      in if 0 \<le> j \<and> j < n then Some (xs ! nat j) else None)"

definition assign_rows :: "error \<Rightarrow> int \<Rightarrow> 'a list \<Rightarrow> 'a list \<Rightarrow> error + 'a list" where
  \<comment> \<open>NumPy's \<^verbatim>\<open>dst[:n] = v\<close> along the first axis: \<open>v\<close> needs as many rows as the
      slice has, or exactly one row, which is then repeated; anything else raises the
      error \<open>err\<close>.\<close>
  "assign_rows err n dst v =
     (let k = slice_stop n (length dst)
      in if length v = k then Inr (v @ drop k dst)
         else if length v = 1 then Inr (replicate k (hd v) @ drop k dst)
         else Inl err)"

definition set_value_rows ::
  "runtime \<Rightarrow> int \<Rightarrow> fl list list \<Rightarrow> fl list list \<Rightarrow> error + fl list list" where
  \<comment> \<open>Paddle's \<^verbatim>\<open>target[:n] = v\<close> for a binary32 tensor and a NumPy value. An empty slice
      is left as it is, whatever the value. A value without rows writes nothing definite:
      the rows of the slice come back with unspecified content. Otherwise the value needs
      as many rows as the slice, or exactly one row, and is converted to binary32;
      anything else raises.\<close>
  "set_value_rows rt n dst v =
     (let k = slice_stop n (length dst)
      in if k = 0 then Inr dst
         else if length v = 0 then Inr (map (uninitialised rt) [0..<k] @ drop k dst)
         else if length v = k then Inr (map (map (to32 rt)) v @ drop k dst)
         else if length v = 1 then Inr (replicate k (map (to32 rt) (hd v)) @ drop k dst)
         else Inl SetValueShapeError)"

subsection \<open>The overlap function\<close>

type_synonym box = "real \<times> real \<times> real \<times> real"

fun box_area :: "(real \<Rightarrow> real) \<Rightarrow> box \<Rightarrow> real" where
  \<comment> \<open>lines 33 and 34: \<^verbatim>\<open>(b[2] - b[0] + 1) * (b[3] - b[1] + 1)\<close> in the format of the
      array, every operation rounded by \<open>r\<close>\<close>
  "box_area r (x1, y1, x2, y2) = r (r (r (x2 - x1) + 1) * r (r (y2 - y1) + 1))"

definition clip_neg :: "real \<Rightarrow> real" where
  \<comment> \<open>\<^verbatim>\<open>a[a < 0] = 0\<close> on one element\<close>
  "clip_neg v = (if v < 0 then 0 else v)"

fun iw :: "runtime \<Rightarrow> box \<Rightarrow> box \<Rightarrow> real" where
  \<comment> \<open>lines 39 and 40; the minimum and maximum of a binary32 and a binary64 element are
      exact, the subtraction and the addition are binary64\<close>
  "iw rt (ax1, ay1, ax2, ay2) (qx1, qy1, qx2, qy2) =
     clip_neg (f64 rt (f64 rt (min ax2 qx2 - max ax1 qx1) + 1))"

fun ih :: "runtime \<Rightarrow> box \<Rightarrow> box \<Rightarrow> real" where
  \<comment> \<open>lines 42 and 43\<close>
  "ih rt (ax1, ay1, ax2, ay2) (qx1, qy1, qx2, qy2) =
     clip_neg (f64 rt (f64 rt (min ay2 qy2 - max ay1 qy1) + 1))"

definition inter :: "runtime \<Rightarrow> box \<Rightarrow> box \<Rightarrow> real" where
  \<comment> \<open>\<^verbatim>\<open>iw * ih\<close> of lines 45 and 46\<close>
  "inter rt a q = f64 rt (iw rt a q * ih rt a q)"

definition ua :: "runtime \<Rightarrow> box \<Rightarrow> box \<Rightarrow> real" where
  \<comment> \<open>line 45: the binary32 area of the anchor plus the binary64 area of the query box,
      minus the intersection, in binary64\<close>
  "ua rt a q =
     f64 rt (f64 rt (box_area (f32 rt) a + box_area (f64 rt) q) - inter rt a q)"

definition overlap :: "runtime \<Rightarrow> box \<Rightarrow> box \<Rightarrow> fl" where
  \<comment> \<open>line 46, one element of \<^verbatim>\<open>overlaps\<close>\<close>
  "overlap rt a q = fl_div (f64 rt) (inter rt a q) (ua rt a q)"

definition iou :: "runtime \<Rightarrow> box list \<Rightarrow> box list \<Rightarrow> fl list list" where
  \<comment> \<open>The (N, K) array of overlaps: row \<open>i\<close> holds anchor \<open>i\<close> against every query box.
      The anchors are rows of a binary32 store array, the query boxes a binary64 array.\<close>
  "iou rt anchors gt_boxes = map (\<lambda>a. map (\<lambda>q. overlap rt a q) gt_boxes) anchors"

subsection \<open>The dataset\<close>

record raw_entry =
  caption :: string
  sent_id :: int
  image_id :: int
  refBox :: "real \<times> real \<times> real \<times> real"   \<comment> \<open>x, y, w, h\<close>
  ref_id :: int

record entry = raw_entry +
  token :: "int list"
  input_mask :: "int list"
  segment_ids :: "int list"

record region_data =
  \<comment> \<open>What a region store returns for an image id: features, num_boxes, boxes, boxes_ori.
      The rows of \<open>rd_boxes_ori\<close> are the four corner columns that \<^verbatim>\<open>[:, :4]\<close> selects.\<close>
  rd_features :: "real list list"
  rd_num_boxes :: int
  rd_boxes :: "real list list"
  rd_boxes_ori :: "box list"

record tokenizer =
  \<comment> \<open>The external tokenizer and its vocabulary object.\<close>
  tokenize_caption :: "string \<Rightarrow> string list"
  vocab_contains :: "string \<Rightarrow> bool"
  vocab :: "string \<Rightarrow> int"

record dataset =
  split :: string
  image_features_reader :: "int \<Rightarrow> region_data option"
  gt_image_features_reader :: "int \<Rightarrow> region_data option"
  padding_index :: int
  max_seq_length :: int
  max_region_num :: int
  entries :: "entry list"

record example =
  \<comment> \<open>The tuple returned by the per-index fetch, in its order.\<close>
  ex_features :: "real list list"
  ex_spatials :: "real list list"
  ex_image_mask :: "real list"
  ex_caption :: "int list"
  ex_target :: "fl list list"
  ex_input_mask :: "int list"
  ex_segment_ids :: "int list"
  ex_co_attention_mask :: "real list list"
  ex_image_id :: int

subsection \<open>Tokenization\<close>

definition caption_ids :: "tokenizer \<Rightarrow> string \<Rightarrow> int list" where
  \<comment> \<open>lines 125 to 131\<close>
  "caption_ids tk c =
     (let sentence_tokens = [''[CLS]''] @ tokenize_caption tk c @ [''[SEP]'']
      in map (\<lambda>w. if vocab_contains tk w then vocab tk w else vocab tk ''[UNK]'')
           sentence_tokens)"

definition pack_tokens :: "int \<Rightarrow> int \<Rightarrow> int list \<Rightarrow> int list \<times> int list \<times> int list" where
  \<comment> \<open>lines 133 to 142: (tokens, input_mask, segment_ids)\<close>
  "pack_tokens L pad toks =
     (let tokens = py_upto L toks;
          segment_ids = replicate (length tokens) 0;
          input_mask = replicate (length tokens) 1
      in if int (length tokens) < L
         then (let padding = replicate (nat (L - int (length tokens))) pad
               in (tokens @ padding, input_mask @ padding, segment_ids @ padding))
         else (tokens, input_mask, segment_ids))"

definition assert_eq :: "int \<Rightarrow> int \<Rightarrow> error + unit" where
  "assert_eq real_len expected = (if real_len = expected then Inr () else Inl AssertionError)"

definition tokenize_entry :: "tokenizer \<Rightarrow> int \<Rightarrow> int \<Rightarrow> raw_entry \<Rightarrow> error + entry" where
  \<comment> \<open>The body of the loop of \<^verbatim>\<open>tokenize\<close>, lines 125 to 147.\<close>
  "tokenize_entry tk L pad e =
     (case pack_tokens L pad (caption_ids tk (caption e)) of
        (tokens, in_mask, seg_ids) \<Rightarrow>
          (case assert_eq (int (length tokens)) L of
             Inl err \<Rightarrow> Inl err
           | Inr _ \<Rightarrow>
               Inr \<lparr>caption = caption e, sent_id = sent_id e, image_id = image_id e,
                    refBox = refBox e, ref_id = ref_id e,
                    token = tokens, input_mask = in_mask, segment_ids = seg_ids\<rparr>))"

fun tokenize :: "tokenizer \<Rightarrow> int \<Rightarrow> int \<Rightarrow> raw_entry list \<Rightarrow> error + entry list" where
  \<comment> \<open>The loop over the entries: the first failed assertion aborts it.\<close>
  "tokenize tk L pad [] = Inr []"
| "tokenize tk L pad (e # es) =
     (case tokenize_entry tk L pad e of
        Inl err \<Rightarrow> Inl err
      | Inr e' \<Rightarrow>
          (case tokenize tk L pad es of
             Inl err \<Rightarrow> Inl err
           | Inr es' \<Rightarrow> Inr (e' # es')))"

subsection \<open>The per-index fetch\<close>

definition zero_below_half :: "fl \<Rightarrow> fl" where
  \<comment> \<open>line 189 on one element: \<^verbatim>\<open>mix_target[mix_target < 0.5] = 0\<close>\<close>
  "zero_below_half v = (if fl_lt v 0.5 then Val 0 else v)"

definition corners :: "runtime \<Rightarrow> real \<times> real \<times> real \<times> real \<Rightarrow> box" where
  \<comment> \<open>line 167: the target box (x, y, w, h) as (x_min, y_min, x_max, y_max); the two sums
      are Python float additions\<close>
  "corners rt r = (case r of (x, y, w, h) \<Rightarrow> (x, y, f64 rt (x + w), f64 rt (y + h)))"

definition getitem_mix ::
  "runtime \<Rightarrow> dataset \<Rightarrow> int \<Rightarrow>
   error + (entry \<times> box list \<times> real list list \<times> real list list \<times> int \<times> fl list list)" where
  \<comment> \<open>\<^verbatim>\<open>__getitem__\<close>, lines 162 to 196: the entry and
      (mix_boxes_ori, mix_boxes, mix_features, mix_num_boxes, mix_target)\<close>
  "getitem_mix rt ds index =
     (case py_index (entries ds) index of
        None \<Rightarrow> Inl IndexError
      | Some e \<Rightarrow>
          (let ref_box = corners rt (refBox e)
           in case image_features_reader ds (image_id e) of
                None \<Rightarrow> Inl KeyError
              | Some det \<Rightarrow>
                  (let num_boxes = rd_num_boxes det;
                       boxes_ori = py_upto num_boxes (rd_boxes_ori det);
                       boxes = py_upto num_boxes (rd_boxes det);
                       features = py_upto num_boxes (rd_features det)
                   in if split ds = ''train'' then
                        (case gt_image_features_reader ds (image_id e) of
                           None \<Rightarrow> Inl KeyError
                         | Some gt \<Rightarrow>
                            (let gt_num_boxes = rd_num_boxes gt;
                                 gt_boxes_ori = py_from1_upto gt_num_boxes (rd_boxes_ori gt);
                                 gt_boxes = py_from1_upto gt_num_boxes (rd_boxes gt);
                                 gt_features = py_from1_upto gt_num_boxes (rd_features gt);
                                 mix_boxes_ori = boxes_ori @ gt_boxes_ori;
                                 mix_boxes = boxes @ gt_boxes;
                                 mix_features = features @ gt_features;
                                 mix_num_boxes =
                                   min (num_boxes + gt_num_boxes - 1) (max_region_num ds);
                                 mix_target =
                                   map (map zero_below_half) (iou rt mix_boxes_ori [ref_box])
                             in Inr (e, mix_boxes_ori, mix_boxes, mix_features,
                                     mix_num_boxes, mix_target)))
                      else
                        Inr (e, boxes_ori, boxes, features,
                             min num_boxes (max_region_num ds),
                             iou rt boxes_ori [ref_box]))))"

function pad_mask :: "int \<Rightarrow> real list \<Rightarrow> real list" where
  \<comment> \<open>lines 199 and 200: the \<^verbatim>\<open>while\<close> loop appending zeros\<close>
  "pad_mask R image_mask =
     (if int (length image_mask) < R then pad_mask R (image_mask @ [0]) else image_mask)"
  by pat_completeness auto
termination
  by (relation "measure (\<lambda>(R, m). nat (R - int (length m)))") auto

declare pad_mask.simps [simp del]

definition getitem_pack ::
  "runtime \<Rightarrow> dataset \<Rightarrow> entry \<Rightarrow> real list list \<Rightarrow> real list list \<Rightarrow> int \<Rightarrow> fl list list \<Rightarrow>
   error + example" where
  \<comment> \<open>\<^verbatim>\<open>__getitem__\<close>, lines 198 to 221\<close>
  "getitem_pack rt ds e mix_boxes mix_features mix_num_boxes mix_target =
     (let R = max_region_num ds;
          image_mask = pad_mask R (replicate (nat mix_num_boxes) 1)
      in if R < 0 then Inl NegativeDimensions
         else
          (let mix_boxes_pad = replicate (nat R) (replicate 5 0);
               mix_features_pad = replicate (nat R) (replicate 2048 0)
           in case assign_rows BroadcastError mix_num_boxes mix_boxes_pad
                     (py_upto mix_num_boxes mix_boxes) of
                Inl err \<Rightarrow> Inl err
              | Inr spatials \<Rightarrow>
            (case assign_rows BroadcastError mix_num_boxes mix_features_pad
                     (py_upto mix_num_boxes mix_features) of
                Inl err \<Rightarrow> Inl err
              | Inr features \<Rightarrow>
            (case set_value_rows rt mix_num_boxes (replicate (nat R) [Val 0])
                     mix_target of
                Inl err \<Rightarrow> Inl err
              | Inr target \<Rightarrow>
                  if max_seq_length ds < 0 then Inl NegativeDimensions
                  else Inr \<lparr>ex_features = features, ex_spatials = spatials,
                            ex_image_mask = image_mask, ex_caption = token e,
                            ex_target = target, ex_input_mask = input_mask e,
                            ex_segment_ids = segment_ids e,
                            ex_co_attention_mask =
                              replicate (nat R) (replicate (nat (max_seq_length ds)) 0),
                            ex_image_id = image_id e\<rparr>))))"

definition getitem :: "runtime \<Rightarrow> dataset \<Rightarrow> int \<Rightarrow> error + example" where
  \<comment> \<open>\<^verbatim>\<open>__getitem__\<close>: the two parts in sequence\<close>
  "getitem rt ds index =
     (case getitem_mix rt ds index of
        Inl err \<Rightarrow> Inl err
      | Inr (e, mix_boxes_ori, mix_boxes, mix_features, mix_num_boxes, mix_target) \<Rightarrow>
          getitem_pack rt ds e mix_boxes mix_features mix_num_boxes mix_target)"

subsection \<open>Vocabulary of the properties\<close>

definition rounding :: "(real \<Rightarrow> real) \<Rightarrow> bool" where
  \<comment> \<open>What the properties use of a round-to-nearest binary format, away from overflow
      and underflow: it is monotone, it keeps 1, -1 and 1/2, and its relative error is at
      most 1/64 (binary32 has 2 to the -24, binary64 2 to the -53).\<close>
  "rounding r =
     (mono r \<and> r 1 = 1 \<and> r (- 1) = - 1 \<and> r (1 / 2) = 1 / 2 \<and>
      (\<forall>x. \<bar>r x - x\<bar> \<le> \<bar>x\<bar> / 64))"

definition wf_box :: "box \<Rightarrow> bool" where
  \<comment> \<open>A box whose maximum corner is not below its minimum corner.\<close>
  "wf_box b = (case b of (x1, y1, x2, y2) \<Rightarrow> x1 \<le> x2 \<and> y1 \<le> y2)"

definition degenerate :: "box \<Rightarrow> bool" where
  \<comment> \<open>Zero width or zero height as coordinates: x_max = x_min or y_max = y_min.\<close>
  "degenerate b = (case b of (x1, y1, x2, y2) \<Rightarrow> x2 = x1 \<or> y2 = y1)"

definition disjoint_boxes :: "box \<Rightarrow> box \<Rightarrow> bool" where
  \<comment> \<open>No spatial overlap: the two rectangles, as sets of points, share no point.\<close>
  "disjoint_boxes a q =
     (case a of (ax1, ay1, ax2, ay2) \<Rightarrow> case q of (qx1, qy1, qx2, qy2) \<Rightarrow>
        ax2 < qx1 \<or> qx2 < ax1 \<or> ay2 < qy1 \<or> qy2 < ay1)"

definition pixel_disjoint :: "box \<Rightarrow> box \<Rightarrow> bool" where
  \<comment> \<open>The boxes are at least one unit apart along x or along y, so that their inclusive
      pixel extents \<open>[min, max + 1)\<close> do not meet.\<close>
  "pixel_disjoint a q =
     (case a of (ax1, ay1, ax2, ay2) \<Rightarrow> case q of (qx1, qy1, qx2, qy2) \<Rightarrow>
        ax2 + 1 \<le> qx1 \<or> qx2 + 1 \<le> ax1 \<or> ay2 + 1 \<le> qy1 \<or> qy2 + 1 \<le> ay1)"

definition integral_box :: "box \<Rightarrow> bool" where
  \<comment> \<open>All four coordinates are whole numbers.\<close>
  "integral_box b =
     (case b of (x1, y1, x2, y2) \<Rightarrow>
        of_int \<lfloor>x1\<rfloor> = x1 \<and> of_int \<lfloor>y1\<rfloor> = y1 \<and> of_int \<lfloor>x2\<rfloor> = x2 \<and> of_int \<lfloor>y2\<rfloor> = y2)"

definition fetch_label ::
  "runtime \<Rightarrow> dataset \<Rightarrow> int \<Rightarrow> nat \<Rightarrow> error + (real \<times> fl list)" where
  \<comment> \<open>The mask value and the label row of region \<open>i\<close> in the example a fetch returns.\<close>
  "fetch_label rt ds index i =
     (case getitem rt ds index of
        Inl err \<Rightarrow> Inl err
      | Inr out \<Rightarrow> Inr (ex_image_mask out ! i, ex_target out ! i))"

definition store_rows_ok :: "region_data \<Rightarrow> bool" where
  \<comment> \<open>A store entry holds at least as many rows as it reports valid.\<close>
  "store_rows_ok rd =
     (nat (rd_num_boxes rd) \<le> length (rd_features rd) \<and>
      nat (rd_num_boxes rd) \<le> length (rd_boxes rd) \<and>
      nat (rd_num_boxes rd) \<le> length (rd_boxes_ori rd))"

definition spec_candidates :: "int \<Rightarrow> 'a list \<Rightarrow> int \<Rightarrow> 'a list \<Rightarrow> 'a list" where
  \<comment> \<open>The candidate order of the specification: the first \<open>n\<close> detector rows, then the
      first \<open>g\<close> ground-truth rows without the row of index 0.\<close>
  "spec_candidates n det g gt = take (nat n) det @ drop 1 (take (nat g) gt)"

subsection \<open>A small tokenizer and entry for the worked examples\<close>

fun split_words :: "string \<Rightarrow> string \<Rightarrow> string list" where
  "split_words acc [] = (if acc = [] then [] else [acc])"
| "split_words acc (c # cs) =
     (if c = CHR '' '' then (if acc = [] then split_words [] cs else acc # split_words [] cs)
      else split_words (acc @ [c]) cs)"

definition demo_vocab :: "(string \<times> int) list" where
  "demo_vocab = [(''[CLS]'', 101), (''[SEP]'', 102), (''[UNK]'', 100),
                 (''a'', 1037), (''red'', 2417), (''car'', 2482)]"

definition demo_tokenizer :: tokenizer where
  "demo_tokenizer =
     \<lparr>tokenize_caption = split_words [],
      vocab_contains = (\<lambda>w. map_of demo_vocab w \<noteq> None),
      vocab = (\<lambda>w. case map_of demo_vocab w of Some i \<Rightarrow> i | None \<Rightarrow> 100)\<rparr>"

definition demo_raw :: raw_entry where
  "demo_raw = \<lparr>caption = ''a red car'', sent_id = 1, image_id = 7,
               refBox = (10, 10, 5, 5), ref_id = 3\<rparr>"

subsection \<open>A small dataset for the worked examples\<close>

text \<open>
  One tokenized entry with target box \<open>(10, 10, 5, 5)\<close>, and region stores built from a
  list of boxes: the feature row of a box repeats its first coordinate 2048 times, its
  spatial row has five columns. Every number of the worked examples, and every
  intermediate result of the overlap function on them, is a small multiple of a power of
  two, which binary32 and binary64 represent exactly; on such numbers the arithmetic of
  the code rounds nothing, which is the runtime \<open>exact_runtime\<close>.
\<close>

definition exact_runtime :: runtime where
  "exact_runtime = \<lparr>f32 = (\<lambda>x. x), f64 = (\<lambda>x. x), uninitialised = (\<lambda>i. [NaN])\<rparr>"

definition demo_entry :: entry where
  "demo_entry =
     \<lparr>caption = ''a red car'', sent_id = 1, image_id = 7, refBox = (10, 10, 5, 5), ref_id = 3,
      token = [101, 1037, 2417, 2482, 102] @ replicate 15 0,
      input_mask = [1, 1, 1, 1, 1] @ replicate 15 0,
      segment_ids = [0, 0, 0, 0, 0] @ replicate 15 0\<rparr>"

definition demo_regions :: "int \<Rightarrow> box list \<Rightarrow> region_data" where
  "demo_regions n bs =
     \<lparr>rd_features = map (\<lambda>b. replicate 2048 (fst b)) bs,
      rd_num_boxes = n,
      rd_boxes = map (\<lambda>(x1, y1, x2, y2). [x1 / 512, y1 / 512, x2 / 512, y2 / 512, 1]) bs,
      rd_boxes_ori = bs\<rparr>"

definition demo_dataset :: "string \<Rightarrow> int \<Rightarrow> region_data \<Rightarrow> region_data \<Rightarrow> dataset" where
  "demo_dataset s R det gt =
     \<lparr>split = s,
      image_features_reader = (\<lambda>i. if i = 7 then Some det else None),
      gt_image_features_reader = (\<lambda>i. if i = 7 then Some gt else None),
      padding_index = 0, max_seq_length = 20, max_region_num = R,
      entries = [demo_entry]\<rparr>"

definition demo_det :: region_data where
  "demo_det = demo_regions 3 [(10, 10, 15, 15), (100, 100, 110, 110), (10, 10, 12, 15)]"

definition demo_gt :: region_data where
  "demo_gt = demo_regions 5
     [(10, 10, 15, 15), (10, 10, 21, 21), (10, 10, 15, 17), (10, 10, 12, 15),
      (200, 200, 210, 210)]"

definition demo_mixed :: "box list" where
  "demo_mixed =
     [(10, 10, 15, 15), (100, 100, 110, 110), (10, 10, 12, 15),
      (10, 10, 21, 21), (10, 10, 15, 17), (10, 10, 12, 15), (200, 200, 210, 210)]"

section \<open>Properties of the overlap function\<close>

text \<open>
  What follows from \<open>rounding\<close>: rounding keeps signs and order, and an extent
  \<open>max - min + 1\<close>, an area and an intersection stay within a fixed factor of their exact
  values.
\<close>

lemma rounding_mono:
  assumes "rounding r" "x \<le> y"
  shows "r x \<le> r y"
proof -
  have "mono r" using assms(1) unfolding rounding_def by blast
  then show ?thesis using assms(2) by (rule monoD)
qed

lemma rounding_error:
  assumes "rounding r"
  shows "\<bar>r x - x\<bar> \<le> \<bar>x\<bar> / 64"
  using assms unfolding rounding_def by blast

lemma rounding_one:
  assumes "rounding r"
  shows "r 1 = 1" "r (- 1) = - 1" "r (1 / 2) = 1 / 2"
  using assms unfolding rounding_def by blast+

lemma rounding_zero:
  assumes "rounding r"
  shows "r 0 = 0"
  using rounding_error [OF assms, of 0] by simp

lemma rounding_lower:
  assumes "rounding r" "0 \<le> x"
  shows "63 / 64 * x \<le> r x"
  using rounding_error [OF assms(1), of x] assms(2) by linarith

lemma rounding_upper:
  assumes "rounding r" "0 \<le> x"
  shows "r x \<le> 65 / 64 * x"
  using rounding_error [OF assms(1), of x] assms(2) by linarith

lemma rounding_nonneg:
  assumes "rounding r" "0 \<le> x"
  shows "0 \<le> r x"
  using rounding_mono [OF assms] rounding_zero [OF assms(1)] by simp

lemma rounding_pos:
  assumes "rounding r" "0 < x"
  shows "0 < r x"
proof -
  have "63 / 64 * x \<le> r x" using assms by (intro rounding_lower) simp_all
  then show ?thesis using assms(2) by linarith
qed

lemma rounding_ge_one:
  assumes "rounding r" "1 \<le> x"
  shows "1 \<le> r x"
  using rounding_mono [OF assms] rounding_one(1) [OF assms(1)] by simp


lemma extent_ge_one:
  assumes "rounding r" "0 \<le> t"
  shows "1 \<le> r (r t + 1)"
proof -
  have "1 \<le> r t + 1" using rounding_nonneg [OF assms] by simp
  then show ?thesis by (rule rounding_ge_one [OF assms(1)])
qed

lemma extent_mono:
  assumes "rounding r" "s \<le> t"
  shows "r (r s + 1) \<le> r (r t + 1)"
proof -
  have "r s + 1 \<le> r t + 1" using rounding_mono [OF assms] by simp
  then show ?thesis by (rule rounding_mono [OF assms(1)])
qed

lemma extent_lower:
  assumes "rounding r" "0 \<le> t"
  shows "3969 / 4096 * (t + 1) \<le> r (r t + 1)"
proof -
  have a: "63 / 64 * t \<le> r t" by (rule rounding_lower [OF assms])
  have "0 \<le> r t + 1" using rounding_nonneg [OF assms] by simp
  then have b: "63 / 64 * (r t + 1) \<le> r (r t + 1)" by (rule rounding_lower [OF assms(1)])
  have "3969 / 4096 * (t + 1) \<le> 63 / 64 * (r t + 1)" using a assms(2) by argo
  then show ?thesis using b by argo
qed

lemma extent_upper:
  assumes "rounding r" "0 \<le> t"
  shows "r (r t + 1) \<le> 4225 / 4096 * (t + 1)"
proof -
  have a: "r t \<le> 65 / 64 * t" by (rule rounding_upper [OF assms])
  have "0 \<le> r t + 1" using rounding_nonneg [OF assms] by simp
  then have b: "r (r t + 1) \<le> 65 / 64 * (r t + 1)" by (rule rounding_upper [OF assms(1)])
  have "65 / 64 * (r t + 1) \<le> 4225 / 4096 * (t + 1)" using a assms(2) by argo
  then show ?thesis using b by argo
qed

lemma iw_nonneg: "0 \<le> iw rt a q"
  by (cases a; cases q) (simp add: clip_neg_def)

lemma ih_nonneg: "0 \<le> ih rt a q"
  by (cases a; cases q) (simp add: clip_neg_def)

lemma clip_neg_le:
  assumes "v \<le> w" "0 \<le> w"
  shows "clip_neg v \<le> w"
  using assms by (simp add: clip_neg_def)


lemma area_ge_one:
  assumes "rounding r" "wf_box b"
  shows "1 \<le> box_area r b"
proof -
  obtain x1 y1 x2 y2 where b: "b = (x1, y1, x2, y2)" by (cases b) auto
  have w: "0 \<le> x2 - x1" "0 \<le> y2 - y1" using assms(2) by (simp_all add: b wf_box_def)
  have "1 * 1 \<le> r (r (x2 - x1) + 1) * r (r (y2 - y1) + 1)"
    using extent_ge_one [OF assms(1) w(1)] extent_ge_one [OF assms(1) w(2)]
    by (intro mult_mono) simp_all
  then have "1 \<le> r (r (x2 - x1) + 1) * r (r (y2 - y1) + 1)" by simp
  then show ?thesis unfolding b box_area.simps by (rule rounding_ge_one [OF assms(1)])
qed

lemma scale_prod: "(c * x) * (d * y) = (c * d) * (x * y)" for c :: real
  by (simp add: mult_ac)

lemma area_lower:
  assumes "rounding r" "x1 \<le> x2" "y1 \<le> y2"
  shows "992436543 / 1073741824 * ((x2 - x1 + 1) * (y2 - y1 + 1)) \<le> box_area r (x1, y1, x2, y2)"
proof -
  define W H where "W = x2 - x1 + 1" and "H = y2 - y1 + 1"
  define ex ey where "ex = r (r (x2 - x1) + 1)" and "ey = r (r (y2 - y1) + 1)"
  have w: "0 \<le> x2 - x1" "0 \<le> y2 - y1" using assms(2,3) by simp_all
  have W0: "0 \<le> W" "0 \<le> H" using w by (simp_all add: W_def H_def)
  have ex: "3969 / 4096 * W \<le> ex" using extent_lower [OF assms(1) w(1)] by (simp add: W_def ex_def)
  have ey: "3969 / 4096 * H \<le> ey" using extent_lower [OF assms(1) w(2)] by (simp add: H_def ey_def)
  have ex0: "0 \<le> ex" using extent_ge_one [OF assms(1) w(1)] by (simp add: ex_def)
  have h0: "0 \<le> 3969 / 4096 * H" using W0(2) by simp
  have "(3969 / 4096 * W) * (3969 / 4096 * H) \<le> ex * ey"
    using ex ey ex0 h0 by (rule mult_mono)
  moreover have "(3969 / 4096 * W) * (3969 / 4096 * H) = (3969 / 4096 * (3969 / 4096)) * (W * H)"
    by (rule scale_prod)
  ultimately have p: "15752961 / 16777216 * (W * H) \<le> ex * ey" by simp
  define P E where "P = W * H" and "E = ex * ey"
  have P0: "0 \<le> P" using W0 by (simp add: P_def)
  have p': "15752961 / 16777216 * P \<le> E" using p by (simp add: P_def E_def)
  have e0: "0 \<le> E" using p' P0 by argo
  have "63 / 64 * E \<le> r E" by (rule rounding_lower [OF assms(1) e0])
  then have "992436543 / 1073741824 * P \<le> r E" using p' by argo
  then show ?thesis by (simp add: P_def E_def W_def H_def ex_def ey_def)
qed

lemma iw_le_extent:
  assumes "rounding (f64 rt)" "a = (ax1, ay1, ax2, ay2)" "q = (qx1, qy1, qx2, qy2)"
  shows "ax1 \<le> ax2 \<Longrightarrow> iw rt a q \<le> f64 rt (f64 rt (ax2 - ax1) + 1)"
    and "qx1 \<le> qx2 \<Longrightarrow> iw rt a q \<le> f64 rt (f64 rt (qx2 - qx1) + 1)"
    and "ay1 \<le> ay2 \<Longrightarrow> ih rt a q \<le> f64 rt (f64 rt (ay2 - ay1) + 1)"
    and "qy1 \<le> qy2 \<Longrightarrow> ih rt a q \<le> f64 rt (f64 rt (qy2 - qy1) + 1)"
proof -
  note r = assms(1)
  have m: "min ax2 qx2 - max ax1 qx1 \<le> ax2 - ax1" "min ax2 qx2 - max ax1 qx1 \<le> qx2 - qx1"
    "min ay2 qy2 - max ay1 qy1 \<le> ay2 - ay1" "min ay2 qy2 - max ay1 qy1 \<le> qy2 - qy1"
    by linarith+
  show "iw rt a q \<le> f64 rt (f64 rt (ax2 - ax1) + 1)" if "ax1 \<le> ax2"
  proof -
    have "0 \<le> f64 rt (f64 rt (ax2 - ax1) + 1)" using extent_ge_one [OF r, of "ax2 - ax1"] that by simp
    then show ?thesis unfolding assms(2,3) iw.simps
      using extent_mono [OF r m(1)] by (intro clip_neg_le)
  qed
  show "iw rt a q \<le> f64 rt (f64 rt (qx2 - qx1) + 1)" if "qx1 \<le> qx2"
  proof -
    have "0 \<le> f64 rt (f64 rt (qx2 - qx1) + 1)" using extent_ge_one [OF r, of "qx2 - qx1"] that by simp
    then show ?thesis unfolding assms(2,3) iw.simps
      using extent_mono [OF r m(2)] by (intro clip_neg_le)
  qed
  show "ih rt a q \<le> f64 rt (f64 rt (ay2 - ay1) + 1)" if "ay1 \<le> ay2"
  proof -
    have "0 \<le> f64 rt (f64 rt (ay2 - ay1) + 1)" using extent_ge_one [OF r, of "ay2 - ay1"] that by simp
    then show ?thesis unfolding assms(2,3) ih.simps
      using extent_mono [OF r m(3)] by (intro clip_neg_le)
  qed
  show "ih rt a q \<le> f64 rt (f64 rt (qy2 - qy1) + 1)" if "qy1 \<le> qy2"
  proof -
    have "0 \<le> f64 rt (f64 rt (qy2 - qy1) + 1)" using extent_ge_one [OF r, of "qy2 - qy1"] that by simp
    then show ?thesis unfolding assms(2,3) ih.simps
      using extent_mono [OF r m(4)] by (intro clip_neg_le)
  qed
qed

lemma inter_nonneg:
  assumes "rounding (f64 rt)"
  shows "0 \<le> inter rt a q"
  unfolding inter_def using iw_nonneg [of rt a q] ih_nonneg [of rt a q]
  by (intro rounding_nonneg [OF assms]) simp

lemma inter_le_area_query:
  assumes r: "rounding (f64 rt)" and wq: "wf_box q"
  shows "inter rt a q \<le> box_area (f64 rt) q"
proof -
  obtain ax1 ay1 ax2 ay2 where a: "a = (ax1, ay1, ax2, ay2)" by (cases a) auto
  obtain qx1 qy1 qx2 qy2 where q: "q = (qx1, qy1, qx2, qy2)" by (cases q) auto
  have w: "qx1 \<le> qx2" "qy1 \<le> qy2" using wq by (simp_all add: q wf_box_def)
  let ?ex = "f64 rt (f64 rt (qx2 - qx1) + 1)" and ?ey = "f64 rt (f64 rt (qy2 - qy1) + 1)"
  have i: "iw rt a q \<le> ?ex" "ih rt a q \<le> ?ey"
    using iw_le_extent(2,4) [OF r a q] w by simp_all
  have "0 \<le> ?ex" using extent_ge_one [OF r, of "qx2 - qx1"] w(1) by simp
  then have "iw rt a q * ih rt a q \<le> ?ex * ?ey"
    using i ih_nonneg [of rt a q] by (intro mult_mono) simp_all
  then have "f64 rt (iw rt a q * ih rt a q) \<le> f64 rt (?ex * ?ey)" by (rule rounding_mono [OF r])
  then show ?thesis by (simp add: inter_def q)
qed

lemma inter_upper_anchor:
  assumes r: "rounding (f64 rt)" and w: "ax1 \<le> ax2" "ay1 \<le> ay2"
  shows "inter rt (ax1, ay1, ax2, ay2) q \<le>
         1160290625 / 1073741824 * ((ax2 - ax1 + 1) * (ay2 - ay1 + 1))"
proof -
  obtain qx1 qy1 qx2 qy2 where q: "q = (qx1, qy1, qx2, qy2)" by (cases q) auto
  define W H where "W = ax2 - ax1 + 1" and "H = ay2 - ay1 + 1"
  define i j where "i = iw rt (ax1, ay1, ax2, ay2) q" and "j = ih rt (ax1, ay1, ax2, ay2) q"
  have w0: "0 \<le> ax2 - ax1" "0 \<le> ay2 - ay1" using w by simp_all
  have W0: "0 \<le> W" "0 \<le> H" using w0 by (simp_all add: W_def H_def)
  have "i \<le> f64 rt (f64 rt (ax2 - ax1) + 1)"
    unfolding i_def by (rule iw_le_extent(1) [OF r refl q w(1)])
  moreover have "f64 rt (f64 rt (ax2 - ax1) + 1) \<le> 4225 / 4096 * W"
    using extent_upper [OF r w0(1)] by (simp add: W_def)
  ultimately have i: "i \<le> 4225 / 4096 * W" by linarith
  have "j \<le> f64 rt (f64 rt (ay2 - ay1) + 1)"
    unfolding j_def by (rule iw_le_extent(3) [OF r refl q w(2)])
  moreover have "f64 rt (f64 rt (ay2 - ay1) + 1) \<le> 4225 / 4096 * H"
    using extent_upper [OF r w0(2)] by (simp add: H_def)
  ultimately have j: "j \<le> 4225 / 4096 * H" by linarith
  have n: "0 \<le> i" "0 \<le> j" using iw_nonneg ih_nonneg by (simp_all add: i_def j_def)
  have b0: "0 \<le> 4225 / 4096 * W" using W0(1) by simp
  have "i * j \<le> (4225 / 4096 * W) * (4225 / 4096 * H)"
    using i j b0 n(2) by (rule mult_mono)
  moreover have "(4225 / 4096 * W) * (4225 / 4096 * H) = (4225 / 4096 * (4225 / 4096)) * (W * H)"
    by (rule scale_prod)
  ultimately have p: "i * j \<le> 17850625 / 16777216 * (W * H)" by simp
  define P E where "P = W * H" and "E = i * j"
  have p': "E \<le> 17850625 / 16777216 * P" using p by (simp add: P_def E_def)
  have e0: "0 \<le> E" using n by (simp add: E_def)
  have "f64 rt E \<le> 65 / 64 * E" by (rule rounding_upper [OF r e0])
  then have "f64 rt E \<le> 1160290625 / 1073741824 * P" using p' by argo
  then show ?thesis by (simp add: inter_def P_def E_def W_def H_def i_def j_def)
qed

lemma ua_pos_wf:
  assumes r32: "rounding (f32 rt)" and r64: "rounding (f64 rt)"
    and wa: "wf_box a" and wq: "wf_box q"
  shows "0 < ua rt a q"
proof -
  obtain ax1 ay1 ax2 ay2 where a: "a = (ax1, ay1, ax2, ay2)" by (cases a) auto
  have w: "ax1 \<le> ax2" "ay1 \<le> ay2" using wa by (simp_all add: a wf_box_def)
  define P where "P = (ax2 - ax1 + 1) * (ay2 - ay1 + 1)"
  define A Q I where "A = box_area (f32 rt) a" and "Q = box_area (f64 rt) q"
    and "I = inter rt a q"
  have A1: "1 \<le> A" unfolding A_def by (rule area_ge_one [OF r32 wa])
  have Q1: "1 \<le> Q" unfolding Q_def by (rule area_ge_one [OF r64 wq])
  have IQ: "I \<le> Q" unfolding I_def Q_def by (rule inter_le_area_query [OF r64 wq])
  have AP: "992436543 / 1073741824 * P \<le> A"
    unfolding A_def P_def a by (rule area_lower [OF r32 w])
  have IP: "I \<le> 1160290625 / 1073741824 * P"
    unfolding I_def P_def a by (rule inter_upper_anchor [OF r64 w])
  have P0: "0 \<le> P" using w by (simp add: P_def)
  have IA: "5 * I \<le> 6 * A" using AP IP P0 by argo
  have "0 \<le> A + Q" using A1 Q1 by simp
  then have S: "63 / 64 * (A + Q) \<le> f64 rt (A + Q)" by (rule rounding_lower [OF r64])
  define S where "S = f64 rt (A + Q)"
  have "63 / 64 * (A + Q) \<le> S" using \<open>63 / 64 * (A + Q) \<le> f64 rt (A + Q)\<close> by (simp add: S_def)
  then have "0 < S - I" using IQ IA A1 by argo
  then have "0 < f64 rt (S - I)" by (rule rounding_pos [OF r64])
  then show ?thesis by (simp add: ua_def S_def A_def Q_def I_def)
qed

lemma overlap_wf:
  assumes "rounding (f32 rt)" "rounding (f64 rt)" "wf_box a" "wf_box q"
  shows "\<exists>v. overlap rt a q = Val v \<and> 0 \<le> v"
proof -
  have u: "0 < ua rt a q" by (rule ua_pos_wf [OF assms])
  have "0 \<le> inter rt a q / ua rt a q" using inter_nonneg [OF assms(2), of a q] u by simp
  then have "0 \<le> f64 rt (inter rt a q / ua rt a q)" by (rule rounding_nonneg [OF assms(2)])
  then show ?thesis using u by (simp add: overlap_def fl_div_def)
qed

lemma iou_nth: "i < length anchors \<Longrightarrow> j < length gt_boxes \<Longrightarrow>
    iou rt anchors gt_boxes ! i ! j = overlap rt (anchors ! i) (gt_boxes ! j)"
  by (simp add: iou_def)

lemma clipped_zero:
  assumes "rounding r" "m \<le> - 1"
  shows "clip_neg (r (r m + 1)) = 0"
proof -
  have "r m \<le> - 1" using rounding_mono [OF assms] rounding_one(2) [OF assms(1)] by simp
  then have "r m + 1 \<le> 0" by simp
  then have "r (r m + 1) \<le> 0"
    using rounding_mono [OF assms(1), of "r m + 1" 0] rounding_zero [OF assms(1)] by simp
  then show ?thesis by (simp add: clip_neg_def)
qed

lemma pixel_disjoint_inter:
  assumes r: "rounding (f64 rt)" and pd: "pixel_disjoint a q"
  shows "inter rt a q = 0"
proof -
  obtain ax1 ay1 ax2 ay2 where a: "a = (ax1, ay1, ax2, ay2)" by (cases a) auto
  obtain qx1 qy1 qx2 qy2 where q: "q = (qx1, qy1, qx2, qy2)" by (cases q) auto
  from pd consider (x) "min ax2 qx2 - max ax1 qx1 \<le> - 1" | (y) "min ay2 qy2 - max ay1 qy1 \<le> - 1"
    unfolding pixel_disjoint_def a q by fastforce
  then have z: "iw rt a q * ih rt a q = 0"
  proof cases
    case x
    then show ?thesis using clipped_zero [OF r x] by (simp add: a q)
  next
    case y
    then show ?thesis using clipped_zero [OF r y] by (simp add: a q)
  qed
  show ?thesis unfolding inter_def z by (rule rounding_zero [OF r])
qed

lemma integral_disjoint:
  assumes "integral_box a" "integral_box q" "disjoint_boxes a q"
  shows "pixel_disjoint a q"
proof -
  have step: "x + 1 \<le> y" if "of_int \<lfloor>x\<rfloor> = x" "of_int \<lfloor>y\<rfloor> = y" "x < y" for x y :: real
  proof -
    have "\<lfloor>x\<rfloor> < \<lfloor>y\<rfloor>" using that by linarith
    then have "\<lfloor>x\<rfloor> + 1 \<le> \<lfloor>y\<rfloor>" by simp
    then have "(of_int (\<lfloor>x\<rfloor> + 1) :: real) \<le> of_int \<lfloor>y\<rfloor>" by (simp only: of_int_le_iff)
    then show ?thesis using that by simp
  qed
  obtain ax1 ay1 ax2 ay2 where a: "a = (ax1, ay1, ax2, ay2)" by (cases a) auto
  obtain qx1 qy1 qx2 qy2 where q: "q = (qx1, qy1, qx2, qy2)" by (cases q) auto
  show ?thesis
    using assms by (auto simp: a q integral_box_def disjoint_boxes_def pixel_disjoint_def intro: step)
qed

lemma exact_rounding: "rounding (f32 exact_runtime)" "rounding (f64 exact_runtime)"
  by (simp_all add: rounding_def exact_runtime_def mono_def)

lemmas exact_defs = exact_runtime_def iou_def overlap_def ua_def inter_def fl_div_def clip_neg_def

text \<open>
  Claim C7, as amended. The overlap function adds one to every extent (the
  inclusive-pixel convention), so two boxes count as overlapping as soon as their
  coordinates are less than one unit apart. For every pair of well-formed boxes of the
  two arguments that are at least one unit apart along x or along y (which holds for any
  two disjoint boxes with whole-number coordinates), the entry of the overlap matrix is
  exactly 0, whatever the rounding; the intersection width and height are clipped at zero
  and are never negative.
\<close>

theorem iou_pixel_disjoint_zero:
  assumes "rounding (f32 rt)" "rounding (f64 rt)"
    and "i < length anchors" "j < length gt_boxes"
    and "wf_box (anchors ! i)" "wf_box (gt_boxes ! j)"
    and "pixel_disjoint (anchors ! i) (gt_boxes ! j) \<or>
         (integral_box (anchors ! i) \<and> integral_box (gt_boxes ! j) \<and>
          disjoint_boxes (anchors ! i) (gt_boxes ! j))"
  shows "iou rt anchors gt_boxes ! i ! j = Val 0 \<and>
         0 \<le> iw rt (anchors ! i) (gt_boxes ! j) \<and> 0 \<le> ih rt (anchors ! i) (gt_boxes ! j)"
proof -
  let ?a = "anchors ! i" and ?q = "gt_boxes ! j"
  have pd: "pixel_disjoint ?a ?q" using assms(7) integral_disjoint by blast
  have z: "inter rt ?a ?q = 0" by (rule pixel_disjoint_inter [OF assms(2) pd])
  have "ua rt ?a ?q \<noteq> 0" using ua_pos_wf [OF assms(1,2,5,6)] by simp
  then have "overlap rt ?a ?q = Val 0"
    unfolding overlap_def z fl_div_def by (simp add: rounding_zero [OF assms(2)])
  then show ?thesis using assms(3,4) iw_nonneg ih_nonneg by (simp add: iou_nth)
qed

text \<open>Scenario A of the specification: the far-away detector box gets overlap 0.\<close>

theorem iou_pixel_disjoint_zero_witness:
  "iou exact_runtime [(10, 10, 15, 15), (100, 100, 110, 110)] [(10, 10, 15, 15)] ! 1 ! 0 = Val 0 \<and>
   disjoint_boxes (100, 100, 110, 110) (10, 10, 15, 15)"
proof -
  have "iou exact_runtime [(10, 10, 15, 15), (100, 100, 110, 110)] [(10, 10, 15, 15)] ! 1 ! 0 = Val 0 \<and>
        0 \<le> iw exact_runtime ([(10, 10, 15, 15), (100, 100, 110, 110)] ! 1) ([(10, 10, 15, 15)] ! 0) \<and>
        0 \<le> ih exact_runtime ([(10, 10, 15, 15), (100, 100, 110, 110)] ! 1) ([(10, 10, 15, 15)] ! 0)"
    by (rule iou_pixel_disjoint_zero [OF exact_rounding])
      (simp_all add: wf_box_def pixel_disjoint_def)
  then show ?thesis by (simp add: disjoint_boxes_def)
qed

text \<open>
  Claim C7 as stated fails: the boxes \<open>(0, 0, 7, 7)\<close> and \<open>(7.5, 0, 15, 7)\<close> share no
  point, yet the computed intersection width is \<open>7 - 7.5 + 1 = 0.5\<close>, the intersection
  is 4, the union 128 and the overlap \<open>1 / 32\<close> (all exact in binary floating point).
\<close>

theorem iou_disjoint_counterexample:
  "wf_box (0, 0, 7, 7) \<and> wf_box (15 / 2, 0, 15, 7) \<and>
   disjoint_boxes (0, 0, 7, 7) (15 / 2, 0, 15, 7) \<and>
   iou exact_runtime [(0, 0, 7, 7)] [(15 / 2, 0, 15, 7)] = [[Val (1 / 32)]] \<and>
   iou exact_runtime [(0, 0, 7, 7)] [(15 / 2, 0, 15, 7)] \<noteq> [[Val 0]]"
  by (simp add: wf_box_def disjoint_boxes_def exact_defs)

text \<open>
  Claim C4, as amended. A degenerate box (x_max = x_min or y_max = y_min) paired with any
  box, both well-formed, yields a union above 0, whatever the rounding, so the division
  is defined and the overlap is a number; the intersection need not be 0. The union is 0
  only when one of the two boxes has its maximum corner below its minimum corner.
\<close>

theorem iou_degenerate_union:
  "(rounding (f32 rt) \<and> rounding (f64 rt) \<and> degenerate a \<and> wf_box a \<and> wf_box q \<longrightarrow>
      0 < ua rt a q \<and> (\<exists>v. iou rt [a] [q] = [[Val v]])) \<and>
   (rounding (f32 rt) \<and> rounding (f64 rt) \<and> ua rt a q = 0 \<longrightarrow>
      \<not> (wf_box a \<and> wf_box q))"
proof (intro conjI impI)
  assume h: "rounding (f32 rt) \<and> rounding (f64 rt) \<and> degenerate a \<and> wf_box a \<and> wf_box q"
  show "0 < ua rt a q" using h ua_pos_wf by blast
  show "\<exists>v. iou rt [a] [q] = [[Val v]]"
    using overlap_wf [of rt a q] h by (auto simp: iou_def)
next
  assume u: "rounding (f32 rt) \<and> rounding (f64 rt) \<and> ua rt a q = 0"
  show "\<not> (wf_box a \<and> wf_box q)" using ua_pos_wf [of rt a q] u by auto
qed

text \<open>
  The first part at the one-pixel box \<open>(5, 5, 5, 5)\<close> inside \<open>(0, 0, 15, 15)\<close>, with
  intersection 1, union 256 and overlap \<open>1 / 256\<close>; the second part at two boxes of
  inclusive width 0.
\<close>

theorem iou_degenerate_union_witness:
  "degenerate (5, 5, 5, 5) \<and> wf_box (5, 5, 5, 5) \<and> wf_box (0, 0, 15, 15) \<and>
   0 < ua exact_runtime (5, 5, 5, 5) (0, 0, 15, 15) \<and>
   iou exact_runtime [(5, 5, 5, 5)] [(0, 0, 15, 15)] = [[Val (1 / 256)]] \<and>
   ua exact_runtime (0, 0, - 1, 5) (100, 100, 99, 105) = 0 \<and>
   \<not> (wf_box (0, 0, - 1, 5) \<and> wf_box (100, 100, 99, 105))"
proof -
  have h: "degenerate (5, 5, 5, 5) \<and> wf_box (5, 5, 5, 5) \<and> wf_box (0, 0, 15, 15)"
    by (simp add: degenerate_def wf_box_def)
  have u: "ua exact_runtime (0, 0, - 1, 5) (100, 100, 99, 105) = 0"
    by (simp add: exact_defs)
  have v: "iou exact_runtime [(5, 5, 5, 5)] [(0, 0, 15, 15)] = [[Val (1 / 256)]]"
    by (simp add: exact_defs)
  show ?thesis
    using h u v exact_rounding
      iou_degenerate_union [of exact_runtime "(5, 5, 5, 5)" "(0, 0, 15, 15)"]
      iou_degenerate_union [of exact_runtime "(0, 0, - 1, 5)" "(100, 100, 99, 105)"]
    by blast
qed

text \<open>
  Claim C4 as stated fails three times: the degenerate box \<open>(5, 5, 5, 5)\<close> has
  intersection 1, not 0, with \<open>(0, 0, 10, 10)\<close>; two coincident degenerate boxes have
  union 1 and overlap 1, not a zero union; and the union is 0 (the result is nan) for two
  boxes that are neither degenerate nor coincident.
\<close>

theorem iou_degenerate_counterexample:
  "degenerate (5, 5, 5, 5) \<and>
   inter exact_runtime (5, 5, 5, 5) (0, 0, 10, 10) = 1 \<and>
   ua exact_runtime (5, 5, 5, 5) (5, 5, 5, 5) = 1 \<and>
   iou exact_runtime [(5, 5, 5, 5)] [(5, 5, 5, 5)] = [[Val 1]] \<and>
   \<not> degenerate (0, 0, - 1, 5) \<and> \<not> degenerate (100, 100, 99, 105) \<and>
   ua exact_runtime (0, 0, - 1, 5) (100, 100, 99, 105) = 0 \<and>
   iou exact_runtime [(0, 0, - 1, 5)] [(100, 100, 99, 105)] = [[NaN]]"
  by (simp add: degenerate_def exact_defs)

section \<open>Properties of tokenization\<close>

lemma demo_caption_ids: "caption_ids demo_tokenizer (caption demo_raw) = [101, 1037, 2417, 2482, 102]"
  by (simp add: caption_ids_def demo_tokenizer_def demo_raw_def demo_vocab_def)

lemma length_py_upto: "0 \<le> n \<Longrightarrow> length (py_upto n xs) = min (nat n) (length xs)"
  by (simp add: py_upto_def slice_stop_def)

lemma py_upto_all: "int (length xs) \<le> n \<Longrightarrow> py_upto n xs = xs"
  by (simp add: py_upto_def slice_stop_def)

lemma pack_tokens_same_length:
  assumes "pack_tokens L pad toks = (tokens, in_mask, seg)"
  shows "length in_mask = length tokens" "length seg = length tokens"
  using assms by (auto simp: pack_tokens_def Let_def split: if_splits)

lemma pack_tokens_length:
  assumes "0 \<le> L" "pack_tokens L pad toks = (tokens, in_mask, seg)"
  shows "int (length tokens) = L"
  using assms by (auto simp: pack_tokens_def Let_def length_py_upto split: if_splits)

lemma tokenize_entry_ok:
  assumes "0 \<le> L"
  shows "\<exists>e'. tokenize_entry tk L pad e = Inr e' \<and> caption e' = caption e \<and>
           refBox e' = refBox e \<and> image_id e' = image_id e \<and>
           int (length (token e')) = L \<and> int (length (input_mask e')) = L \<and>
           int (length (segment_ids e')) = L"
proof -
  obtain tokens in_mask seg
    where p: "pack_tokens L pad (caption_ids tk (caption e)) = (tokens, in_mask, seg)"
    by (cases "pack_tokens L pad (caption_ids tk (caption e))") auto
  have l: "int (length tokens) = L" by (rule pack_tokens_length [OF assms p])
  have "length in_mask = length tokens" "length seg = length tokens"
    using pack_tokens_same_length [OF p] by simp_all
  then show ?thesis using l by (simp add: tokenize_entry_def p assert_eq_def)
qed

lemma tokenize_entry_abort:
  assumes "int (length (fst (pack_tokens L pad (caption_ids tk (caption e))))) \<noteq> L"
  shows "tokenize_entry tk L pad e = Inl AssertionError"
  using assms by (auto simp: tokenize_entry_def assert_eq_def split: prod.splits)

lemma tokenize_entry_error:
  "tokenize_entry tk L pad e = Inl err \<Longrightarrow> err = AssertionError"
  by (auto simp: tokenize_entry_def assert_eq_def split: prod.splits if_splits)

lemma tokenize_error: "tokenize tk L pad es = Inl err \<Longrightarrow> err = AssertionError"
  by (induction es arbitrary: err) (auto split: sum.splits dest: tokenize_entry_error)

lemma tokenize_ok:
  assumes "0 \<le> L"
  shows "\<exists>es'. tokenize tk L pad es = Inr es' \<and> map caption es' = map caption es \<and>
           (\<forall>e' \<in> set es'. int (length (token e')) = L \<and> int (length (input_mask e')) = L \<and>
              int (length (segment_ids e')) = L)"
proof (induction es)
  case Nil
  show ?case by simp
next
  case (Cons e es)
  obtain e' where e': "tokenize_entry tk L pad e = Inr e'" "caption e' = caption e"
      "int (length (token e')) = L" "int (length (input_mask e')) = L"
      "int (length (segment_ids e')) = L"
    using tokenize_entry_ok [OF assms, of tk pad e] by blast
  from Cons obtain es' where es': "tokenize tk L pad es = Inr es'"
      "map caption es' = map caption es"
      "\<forall>e' \<in> set es'. int (length (token e')) = L \<and> int (length (input_mask e')) = L \<and>
              int (length (segment_ids e')) = L"
    by blast
  show ?case using e' es' by simp
qed

lemma tokenize_abort:
  assumes "e \<in> set es"
    and "int (length (fst (pack_tokens L pad (caption_ids tk (caption e))))) \<noteq> L"
  shows "tokenize tk L pad es = Inl AssertionError"
  using assms
proof (induction es)
  case Nil
  then show ?case by simp
next
  case (Cons x xs)
  show ?case
  proof (cases "tokenize_entry tk L pad x")
    case (Inl err)
    then show ?thesis using tokenize_entry_error [OF Inl] by simp
  next
    case (Inr x')
    then have "x \<noteq> e" using tokenize_entry_abort [OF Cons.prems(2)] by auto
    then have "tokenize tk L pad xs = Inl AssertionError" using Cons by simp
    then show ?thesis using Inr by simp
  qed
qed

text \<open>
  Claim C8. For a sequence length \<open>L \<ge> 0\<close> and every list of entries, whatever the
  lengths of their captions, tokenization succeeds and every entry gets token, mask and
  segment-id vectors of length exactly \<open>L\<close> (the caption is kept). If the packed token
  list of some entry has a length other than \<open>L\<close>, the assertion fails and the whole
  tokenization, and with it the construction of the dataset, aborts with AssertionError.
\<close>

theorem tokenize_fixed_length:
  "(0 \<le> L \<longrightarrow>
      (\<exists>es'. tokenize tk L pad es = Inr es' \<and> map caption es' = map caption es \<and>
         (\<forall>e' \<in> set es'. int (length (token e')) = L \<and> int (length (input_mask e')) = L \<and>
            int (length (segment_ids e')) = L))) \<and>
   ((\<exists>e \<in> set es. int (length (fst (pack_tokens L pad (caption_ids tk (caption e))))) \<noteq> L) \<longrightarrow>
      tokenize tk L pad es = Inl AssertionError)"
  using tokenize_ok [of L tk pad es] tokenize_abort [of _ es L pad tk] by blast

text \<open>
  Scenario D of the specification (``a red car'', length 20: padded), a caption longer
  than the sequence length 3 (truncated), and the negative length \<open>-1\<close>, where the
  slice keeps four tokens and the assertion aborts.
\<close>

theorem tokenize_fixed_length_witness:
  "(\<exists>es'. tokenize demo_tokenizer 20 0 [demo_raw] = Inr es' \<and>
      map token es' = [[101, 1037, 2417, 2482, 102] @ replicate 15 0] \<and>
      map (length \<circ> input_mask) es' = [20] \<and> map (length \<circ> segment_ids) es' = [20]) \<and>
   (\<exists>es'. tokenize demo_tokenizer 3 0 [demo_raw] = Inr es' \<and>
      map token es' = [[101, 1037, 2417]]) \<and>
   tokenize demo_tokenizer (- 1) 0 [demo_raw] = Inl AssertionError"
proof -
  have p20: "pack_tokens 20 0 [101, 1037, 2417, 2482, 102] =
      ([101, 1037, 2417, 2482, 102] @ replicate 15 0, [1, 1, 1, 1, 1] @ replicate 15 0,
       [0, 0, 0, 0, 0] @ replicate 15 0)"
    by (simp add: pack_tokens_def py_upto_def slice_stop_def Let_def)
  have p3: "pack_tokens 3 0 [101, 1037, 2417, 2482, 102] =
      ([101, 1037, 2417], [1, 1, 1], [0, 0, 0])"
    by (simp add: pack_tokens_def py_upto_def slice_stop_def Let_def)
  have pm: "fst (pack_tokens (- 1) 0 [101, 1037, 2417, 2482, 102]) = [101, 1037, 2417, 2482]"
    by (simp add: pack_tokens_def py_upto_def slice_stop_def Let_def)
  have a: "\<exists>e \<in> set [demo_raw].
      int (length (fst (pack_tokens (- 1) 0 (caption_ids demo_tokenizer (caption e))))) \<noteq> - 1"
    by (simp add: demo_caption_ids pm)
  have t20: "tokenize demo_tokenizer 20 0 [demo_raw] =
      Inr [\<lparr>caption = ''a red car'', sent_id = 1, image_id = 7, refBox = (10, 10, 5, 5),
            ref_id = 3, token = [101, 1037, 2417, 2482, 102] @ replicate 15 0,
            input_mask = [1, 1, 1, 1, 1] @ replicate 15 0,
            segment_ids = [0, 0, 0, 0, 0] @ replicate 15 0\<rparr>]"
    by (simp add: tokenize_entry_def demo_caption_ids p20 assert_eq_def) (simp add: demo_raw_def)
  have t3: "tokenize demo_tokenizer 3 0 [demo_raw] =
      Inr [\<lparr>caption = ''a red car'', sent_id = 1, image_id = 7, refBox = (10, 10, 5, 5),
            ref_id = 3, token = [101, 1037, 2417],
            input_mask = [1, 1, 1], segment_ids = [0, 0, 0]\<rparr>]"
    by (simp add: tokenize_entry_def demo_caption_ids p3 assert_eq_def) (simp add: demo_raw_def)
  have w20: "\<exists>es'. tokenize demo_tokenizer 20 0 [demo_raw] = Inr es' \<and>
      map token es' = [[101, 1037, 2417, 2482, 102] @ replicate 15 0] \<and>
      map (length \<circ> input_mask) es' = [20] \<and> map (length \<circ> segment_ids) es' = [20]"
    unfolding t20 by simp
  have w3: "\<exists>es'. tokenize demo_tokenizer 3 0 [demo_raw] = Inr es' \<and>
      map token es' = [[101, 1037, 2417]]"
    unfolding t3 by simp
  have z: "(0::int) \<le> 20" by simp
  have ok: "\<exists>es'. tokenize demo_tokenizer 20 0 [demo_raw] = Inr es'"
    using z tokenize_fixed_length [of 20 demo_tokenizer 0 "[demo_raw]"] by blast
  have ab: "tokenize demo_tokenizer (- 1) 0 [demo_raw] = Inl AssertionError"
    using tokenize_fixed_length [of "- 1" demo_tokenizer 0 "[demo_raw]"] a by blast
  show ?thesis using w20 w3 ok ab by blast
qed


lemma pack_tokens_short:
  assumes "int (length toks) < L"
  shows "pack_tokens L pad toks =
    (toks @ replicate (nat (L - int (length toks))) pad,
     replicate (length toks) 1 @ replicate (nat (L - int (length toks))) pad,
     replicate (length toks) 0 @ replicate (nat (L - int (length toks))) pad)"
proof -
  have "py_upto L toks = toks" using assms by (simp add: py_upto_all)
  then show ?thesis using assms by (simp add: pack_tokens_def Let_def)
qed

text \<open>
  Claim C9. For a caption whose token sequence, markers included, has length \<open>t < L\<close>,
  tokenization succeeds and the positions \<open>t .. L - 1\<close> of the sequence mask and of the
  segment ids hold \<open>padding_index\<close>; so the mask is 0 there exactly when
  \<open>padding_index\<close> is 0. The positions below \<open>t\<close> hold mask 1 and segment id 0.
\<close>

theorem padded_tail_is_padding_index:
  assumes "int (length (caption_ids tk (caption e))) < L"
  shows "\<exists>e'. tokenize_entry tk L pad e = Inr e' \<and>
           (\<forall>i. length (caption_ids tk (caption e)) \<le> i \<and> int i < L \<longrightarrow>
                input_mask e' ! i = pad \<and> segment_ids e' ! i = pad \<and>
                (input_mask e' ! i = 0 \<longleftrightarrow> pad = 0)) \<and>
           (\<forall>i < length (caption_ids tk (caption e)).
                input_mask e' ! i = 1 \<and> segment_ids e' ! i = 0)"
proof -
  let ?ids = "caption_ids tk (caption e)"
  let ?t = "length ?ids"
  let ?e' = "\<lparr>caption = caption e, sent_id = sent_id e, image_id = image_id e,
               refBox = refBox e, ref_id = ref_id e,
               token = ?ids @ replicate (nat (L - int ?t)) pad,
               input_mask = replicate ?t 1 @ replicate (nat (L - int ?t)) pad,
               segment_ids = replicate ?t 0 @ replicate (nat (L - int ?t)) pad\<rparr>"
  have len: "int (length (?ids @ replicate (nat (L - int ?t)) pad)) = L"
    using assms by simp
  have r: "tokenize_entry tk L pad e = Inr ?e'"
    unfolding tokenize_entry_def pack_tokens_short [OF assms] using len
    by (simp add: assert_eq_def)
  have tail: "input_mask ?e' ! i = pad \<and> segment_ids ?e' ! i = pad"
    if "?t \<le> i" "int i < L" for i
  proof -
    have "i - ?t < nat (L - int ?t)" using that by linarith
    then show ?thesis using that by (simp add: nth_append)
  qed
  have head: "input_mask ?e' ! i = 1 \<and> segment_ids ?e' ! i = 0" if "i < ?t" for i
    using that by (simp add: nth_append)
  show ?thesis using r tail head by (intro exI [of _ ?e']) auto
qed

text \<open>With padding index 7 and length 8, the three padded mask positions hold 7.\<close>

theorem padded_tail_is_padding_index_witness:
  "\<exists>e'. tokenize_entry demo_tokenizer 8 7 demo_raw = Inr e' \<and>
      input_mask e' ! 5 = 7 \<and> input_mask e' ! 7 = 7 \<and> segment_ids e' ! 6 = 7 \<and>
      input_mask e' ! 4 = 1 \<and> input_mask e' ! 5 \<noteq> 0"
proof -
  have l: "int (length (caption_ids demo_tokenizer (caption demo_raw))) < 8"
    by (simp add: demo_caption_ids)
  obtain e' where e': "tokenize_entry demo_tokenizer 8 7 demo_raw = Inr e'"
    and tail: "\<And>i. length (caption_ids demo_tokenizer (caption demo_raw)) \<le> i \<and> int i < 8 \<Longrightarrow>
                input_mask e' ! i = 7 \<and> segment_ids e' ! i = 7 \<and>
                (input_mask e' ! i = 0 \<longleftrightarrow> (7::int) = 0)"
    and head: "\<And>i. i < length (caption_ids demo_tokenizer (caption demo_raw)) \<Longrightarrow>
                input_mask e' ! i = 1 \<and> segment_ids e' ! i = 0"
    using padded_tail_is_padding_index [OF l, of 7] by blast
  have "input_mask e' ! 5 = 7" "input_mask e' ! 7 = 7" "segment_ids e' ! 6 = 7"
    "input_mask e' ! 5 \<noteq> 0"
    using tail [of 5] tail [of 7] tail [of 6] by (simp_all add: demo_caption_ids)
  moreover have "input_mask e' ! 4 = 1" using head [of 4] by (simp add: demo_caption_ids)
  ultimately show ?thesis using e' by blast
qed

section \<open>Properties of the per-index fetch\<close>

lemma pad_mask_eq: "pad_mask R m = m @ replicate (nat (R - int (length m))) 0"
proof (induction R m rule: pad_mask.induct)
  case (1 R m)
  show ?case
  proof (cases "int (length m) < R")
    case True
    have n: "nat (R - int (length m)) = Suc (nat (R - int (length (m @ [0]))))"
      using True by simp
    have "pad_mask R m = pad_mask R (m @ [0])"
      using True by (subst pad_mask.simps) simp
    also have "\<dots> = (m @ [0]) @ replicate (nat (R - int (length (m @ [0])))) 0"
      using 1 True by blast
    also have "\<dots> = m @ replicate (nat (R - int (length m))) 0"
      unfolding n by simp
    finally show ?thesis .
  next
    case False
    then show ?thesis by (subst pad_mask.simps) simp
  qed
qed

lemma image_mask_eq:
  assumes "c \<le> R"
  shows "pad_mask R (replicate (nat c) 1) = replicate (nat c) 1 @ replicate (nat R - nat c) 0"
proof -
  have "nat (R - int (nat c)) = nat R - nat c" using assms by linarith
  then show ?thesis by (simp add: pad_mask_eq)
qed

lemma slice_stop_count: "0 \<le> c \<Longrightarrow> nat c \<le> len \<Longrightarrow> slice_stop c len = nat c"
  by (simp add: slice_stop_def)

lemma assign_rows_cases:
  assumes "assign_rows err c dst v = Inr r" "0 \<le> c" "nat c \<le> length dst"
  obtains (rows) "length v = nat c" "r = v @ drop (nat c) dst"
  | (one) "length v = 1" "nat c \<noteq> 1" "r = replicate (nat c) (hd v) @ drop (nat c) dst"
  using assms by (auto simp: assign_rows_def slice_stop_count Let_def split: if_splits)

lemma assign_rows_length:
  assumes "assign_rows err c dst v = Inr r" "0 \<le> c" "nat c \<le> length dst"
  shows "length r = length dst"
  using assms by (cases rule: assign_rows_cases) (use assms(3) in auto)

lemma assign_rows_tail:
  assumes "assign_rows err c dst v = Inr r" "0 \<le> c" "nat c \<le> length dst"
    and "nat c \<le> i" "i < length dst"
  shows "r ! i = dst ! i"
  using assms(1-3) by (cases rule: assign_rows_cases) (use assms(4,5) in \<open>auto simp: nth_append\<close>)

lemma assign_rows_head_mem:
  assumes "assign_rows err c dst v = Inr r" "0 \<le> c" "nat c \<le> length dst" "i < nat c"
  shows "r ! i \<in> set v"
  using assms(1-3)
proof (cases rule: assign_rows_cases)
  case rows
  then show ?thesis using assms(4) by (simp add: nth_append)
next
  case one
  then have "hd v \<in> set v" by (cases v) auto
  then show ?thesis using one assms(4) by (simp add: nth_append)
qed

lemma assign_rows_head:
  assumes "assign_rows err c dst v = Inr r" "0 \<le> c" "nat c \<le> length dst"
    and "i < nat c" "i < length v"
  shows "r ! i = v ! i"
  using assms(1-3)
proof (cases rule: assign_rows_cases)
  case rows
  then show ?thesis using assms(4) by (simp add: nth_append)
next
  case one
  then have "i = 0" using assms(5) by simp
  moreover have "hd v = v ! 0" using one by (cases v) auto
  ultimately show ?thesis using one assms(4) by (simp add: nth_append)
qed

lemma set_value_rows_cases:
  assumes "set_value_rows rt c dst v = Inr r" "0 \<le> c" "nat c \<le> length dst"
  obtains (empty) "nat c = 0" "r = dst"
  | (junk) "nat c \<noteq> 0" "length v = 0"
      "r = map (uninitialised rt) [0..<nat c] @ drop (nat c) dst"
  | (rows) "nat c \<noteq> 0" "length v = nat c" "r = map (map (to32 rt)) v @ drop (nat c) dst"
  | (one) "nat c \<noteq> 0" "length v = 1" "nat c \<noteq> 1"
      "r = replicate (nat c) (map (to32 rt) (hd v)) @ drop (nat c) dst"
  using assms by (auto simp: set_value_rows_def slice_stop_count Let_def split: if_splits)

lemma set_value_rows_length:
  assumes "set_value_rows rt c dst v = Inr r" "0 \<le> c" "nat c \<le> length dst"
  shows "length r = length dst"
  using assms by (cases rule: set_value_rows_cases) (use assms(3) in auto)

lemma set_value_rows_tail:
  assumes "set_value_rows rt c dst v = Inr r" "0 \<le> c" "nat c \<le> length dst"
    and "nat c \<le> i" "i < length dst"
  shows "r ! i = dst ! i"
  using assms(1-3)
  by (cases rule: set_value_rows_cases) (use assms(4,5) in \<open>auto simp: nth_append\<close>)

lemma set_value_rows_head:
  assumes "set_value_rows rt c dst v = Inr r" "0 \<le> c" "nat c \<le> length dst"
    and "i < nat c" "nat c \<le> length v"
  shows "r ! i = map (to32 rt) (v ! i)"
  using assms(1-3)
proof (cases rule: set_value_rows_cases)
  case empty
  then show ?thesis using assms(4) by simp
next
  case junk
  then show ?thesis using assms(4,5) by simp
next
  case rows
  then show ?thesis using assms(4) by (simp add: nth_append)
next
  case one
  then show ?thesis using assms(4,5) by simp
qed

lemma getitem_pack_Inr:
  assumes "getitem_pack rt ds e mb mf c mt = Inr out"
  shows "0 \<le> max_region_num ds" "0 \<le> max_seq_length ds"
    and "ex_image_mask out = pad_mask (max_region_num ds) (replicate (nat c) 1)"
    and "assign_rows BroadcastError c (replicate (nat (max_region_num ds)) (replicate 5 0))
           (py_upto c mb) = Inr (ex_spatials out)"
    and "assign_rows BroadcastError c (replicate (nat (max_region_num ds)) (replicate 2048 0))
           (py_upto c mf) = Inr (ex_features out)"
    and "set_value_rows rt c (replicate (nat (max_region_num ds)) [Val 0]) mt =
           Inr (ex_target out)"
    and "ex_caption out = token e" "ex_input_mask out = input_mask e"
    and "ex_segment_ids out = segment_ids e" "ex_image_id out = image_id e"
  using assms by (auto simp: getitem_pack_def Let_def split: if_splits sum.splits)

lemma getitem_Inr:
  assumes "getitem_mix rt ds index = Inr (e, mbo, mb, mf, c, mt)"
  shows "getitem rt ds index = getitem_pack rt ds e mb mf c mt"
  using assms by (simp add: getitem_def)

lemma getitem_mix_count_le:
  assumes "getitem_mix rt ds index = Inr (e, mbo, mb, mf, c, mt)"
  shows "c \<le> max_region_num ds"
  using assms by (auto simp: getitem_mix_def Let_def split: option.splits if_splits)

lemma getitem_mix_target:
  assumes "getitem_mix rt ds index = Inr (e, mbo, mb, mf, c, mt)"
  shows "mt = (if split ds = ''train''
               then map (map zero_below_half) (iou rt mbo [corners rt (refBox e)])
               else iou rt mbo [corners rt (refBox e)])"
  using assms by (auto simp: getitem_mix_def Let_def split: option.splits if_splits)

lemma getitem_mix_target_rows:
  assumes "getitem_mix rt ds index = Inr (e, mbo, mb, mf, c, mt)"
  shows "length mt = length mbo"
  using getitem_mix_target [OF assms] by (simp add: iou_def)

lemmas demo_defs = demo_dataset_def demo_regions_def demo_det_def demo_gt_def demo_entry_def
  demo_mixed_def

lemmas eval_defs = py_index_def py_upto_def py_from1_upto_def slice_stop_def corners_def
  exact_defs zero_below_half_def Let_def

lemma demo_train_mix:
  "getitem_mix exact_runtime (demo_dataset ''train'' 60 demo_det demo_gt) 0 =
     Inr (demo_entry, demo_mixed, rd_boxes (demo_regions 7 demo_mixed),
       rd_features (demo_regions 7 demo_mixed), 7,
       [[Val 1], [Val 0], [Val (1 / 2)], [Val 0], [Val (3 / 4)], [Val (1 / 2)], [Val 0]])"
  by (simp add: getitem_mix_def demo_defs eval_defs)

lemma demo_mixed_rows:
  "length (rd_features (demo_regions 7 demo_mixed)) = 7"
  "length (rd_boxes (demo_regions 7 demo_mixed)) = 7"
  "rd_features (demo_regions 7 demo_mixed) ! Suc 0 = replicate 2048 100"
  "rd_features (demo_regions 7 demo_mixed) ! 3 = replicate 2048 10"
  "rd_features (demo_regions 7 demo_mixed) ! 6 = replicate 2048 200"
  "rd_boxes (demo_regions 7 demo_mixed) ! 3 = [10 / 512, 10 / 512, 21 / 512, 21 / 512, 1]"
  "rd_boxes (demo_regions 7 demo_mixed) ! 6 = [200 / 512, 200 / 512, 210 / 512, 210 / 512, 1]"
  by (simp_all add: demo_regions_def demo_mixed_def)

lemma demo_dataset_sel:
  "max_region_num (demo_dataset s R det gt) = R"
  "max_seq_length (demo_dataset s R det gt) = 20"
  "split (demo_dataset s R det gt) = s"
  by (simp_all add: demo_dataset_def)

lemmas pack_defs = getitem_pack_def assign_rows_def set_value_rows_def py_upto_def
  slice_stop_def Let_def pad_mask_eq demo_dataset_sel

lemma demo_train_getitem:
  "\<exists>out. getitem exact_runtime (demo_dataset ''train'' 60 demo_det demo_gt) 0 = Inr out \<and>
     ex_image_mask out = replicate 7 1 @ replicate 53 0 \<and>
     ex_target out =
       [[Val 1], [Val 0], [Val (1 / 2)], [Val 0], [Val (3 / 4)], [Val (1 / 2)], [Val 0]] @
       replicate 53 [Val 0]"
proof -
  note g = getitem_Inr [OF demo_train_mix]
  show ?thesis by (subst g) (simp add: pack_defs demo_mixed_rows exact_runtime_def)
qed

lemma count_ones: "length (filter (\<lambda>v. v = 1) (replicate a (1::real) @ replicate b 0)) = a"
  by simp

text \<open>
  Claim C5. For every example the fetch returns, with \<open>c \<ge> 0\<close> the merged candidate count
  computed for it: \<open>c\<close> is at most \<open>max_region_num\<close>, the region mask has length
  \<open>max_region_num\<close> and consists of \<open>c\<close> ones followed by zeros only, so it has exactly
  \<open>c\<close> ones, and the target vector is zero wherever the mask is zero.
\<close>

theorem region_mask_matches_count:
  assumes mix: "getitem_mix rt ds index = Inr (e, mbo, mb, mf, c, mt)"
    and ret: "getitem rt ds index = Inr out"
    and c0: "0 \<le> c"
  shows "c \<le> max_region_num ds \<and>
         length (ex_image_mask out) = nat (max_region_num ds) \<and>
         ex_image_mask out =
           replicate (nat c) 1 @ replicate (nat (max_region_num ds) - nat c) 0 \<and>
         length (filter (\<lambda>v. v = 1) (ex_image_mask out)) = nat c \<and>
         length (ex_target out) = nat (max_region_num ds) \<and>
         (\<forall>i < nat (max_region_num ds). ex_image_mask out ! i = 0 \<longrightarrow> ex_target out ! i = [Val 0])"
proof -
  let ?R = "max_region_num ds"
  have p: "getitem_pack rt ds e mb mf c mt = Inr out" using ret getitem_Inr [OF mix] by simp
  have le: "c \<le> ?R" by (rule getitem_mix_count_le [OF mix])
  have nle: "nat c \<le> nat ?R" using le by simp
  have m: "ex_image_mask out = replicate (nat c) 1 @ replicate (nat ?R - nat c) 0"
    using getitem_pack_Inr(3) [OF p] image_mask_eq [OF le] by simp
  have t: "set_value_rows rt c (replicate (nat ?R) [Val 0]) mt = Inr (ex_target out)"
    by (rule getitem_pack_Inr(6) [OF p])
  have dl: "nat c \<le> length (replicate (nat ?R) [Val (0::real)])" using nle by simp
  have tl: "length (ex_target out) = nat ?R"
    using set_value_rows_length [OF t c0 dl] by simp
  have z: "ex_target out ! i = [Val 0]" if "i < nat ?R" "ex_image_mask out ! i = 0" for i
  proof -
    have "\<not> i < nat c" using that(2) by (auto simp: m nth_append)
    then have "nat c \<le> i" by simp
    moreover have "i < length (replicate (nat ?R) [Val (0::real)])" using that(1) by simp
    ultimately have "ex_target out ! i = replicate (nat ?R) [Val 0] ! i"
      by (rule set_value_rows_tail [OF t c0 dl])
    then show ?thesis using that(1) by simp
  qed
  have cnt: "length (filter (\<lambda>v. v = 1) (ex_image_mask out)) = nat c"
    unfolding m by (rule count_ones)
  have len: "length (ex_image_mask out) = nat ?R" using nle by (simp add: m)
  show ?thesis using le len m cnt tl z by blast
qed

text \<open>
  Claim C6. For every example the fetch returns, with merged count \<open>c \<ge> 0\<close> and merged
  arrays that hold at least \<open>c\<close> rows: the packed features and spatials have
  \<open>max_region_num\<close> rows; every row below \<open>c\<close> is the merged source row of the same
  index, and every row from \<open>c\<close> on is the zero row (2048 and 5 zeros).
\<close>

theorem packed_regions_copy_and_zero:
  assumes mix: "getitem_mix rt ds index = Inr (e, mbo, mb, mf, c, mt)"
    and ret: "getitem rt ds index = Inr out"
    and c0: "0 \<le> c"
    and rows: "nat c \<le> length mf" "nat c \<le> length mb"
  shows "length (ex_features out) = nat (max_region_num ds) \<and>
         length (ex_spatials out) = nat (max_region_num ds) \<and>
         (\<forall>i < nat (max_region_num ds).
            ex_features out ! i = (if i < nat c then mf ! i else replicate 2048 0) \<and>
            ex_spatials out ! i = (if i < nat c then mb ! i else replicate 5 0))"
proof -
  let ?R = "max_region_num ds"
  have p: "getitem_pack rt ds e mb mf c mt = Inr out" using ret getitem_Inr [OF mix] by simp
  have le: "c \<le> ?R" by (rule getitem_mix_count_le [OF mix])
  have nle: "nat c \<le> nat ?R" using le by simp
  have f: "assign_rows BroadcastError c (replicate (nat ?R) (replicate 2048 0)) (py_upto c mf) =
      Inr (ex_features out)"
    by (rule getitem_pack_Inr(5) [OF p])
  have s: "assign_rows BroadcastError c (replicate (nat ?R) (replicate 5 0)) (py_upto c mb) =
      Inr (ex_spatials out)"
    by (rule getitem_pack_Inr(4) [OF p])
  have df: "nat c \<le> length (replicate (nat ?R) (replicate 2048 (0::real)))" using nle by simp
  have ds: "nat c \<le> length (replicate (nat ?R) (replicate 5 (0::real)))" using nle by simp
  have uf: "length (py_upto c mf) = nat c" "\<And>i. i < nat c \<Longrightarrow> py_upto c mf ! i = mf ! i"
    using c0 rows(1) by (simp_all add: py_upto_def slice_stop_def)
  have us: "length (py_upto c mb) = nat c" "\<And>i. i < nat c \<Longrightarrow> py_upto c mb ! i = mb ! i"
    using c0 rows(2) by (simp_all add: py_upto_def slice_stop_def)
  have lf: "length (ex_features out) = nat ?R" using assign_rows_length [OF f c0 df] by simp
  have ls: "length (ex_spatials out) = nat ?R" using assign_rows_length [OF s c0 ds] by simp
  have rf: "ex_features out ! i = (if i < nat c then mf ! i else replicate 2048 0)"
    if "i < nat ?R" for i
  proof (cases "i < nat c")
    case True
    then show ?thesis using assign_rows_head [OF f c0 df True] uf by simp
  next
    case False
    then have "ex_features out ! i = replicate (nat ?R) (replicate 2048 0) ! i"
      using that by (intro assign_rows_tail [OF f c0 df]) simp_all
    then show ?thesis using False that by simp
  qed
  have rs: "ex_spatials out ! i = (if i < nat c then mb ! i else replicate 5 0)"
    if "i < nat ?R" for i
  proof (cases "i < nat c")
    case True
    then show ?thesis using assign_rows_head [OF s c0 ds True] us by simp
  next
    case False
    then have "ex_spatials out ! i = replicate (nat ?R) (replicate 5 0) ! i"
      using that by (intro assign_rows_tail [OF s c0 ds]) simp_all
    then show ?thesis using False that by simp
  qed
  show ?thesis using lf ls rf rs by blast
qed


text \<open>Three detector regions and five ground-truth regions in training mode: count 7.\<close>

theorem region_mask_matches_count_witness:
  "\<exists>out. getitem exact_runtime (demo_dataset ''train'' 60 demo_det demo_gt) 0 = Inr out \<and>
     ex_image_mask out = replicate 7 1 @ replicate 53 0 \<and>
     length (filter (\<lambda>v. v = 1) (ex_image_mask out)) = 7 \<and>
     ex_image_mask out ! 7 = 0 \<and> ex_target out ! 7 = [Val 0] \<and>
     length (ex_target out) = 60"
proof -
  obtain out where out: "getitem exact_runtime (demo_dataset ''train'' 60 demo_det demo_gt) 0 = Inr out"
    using demo_train_getitem by blast
  have c: "(0::int) \<le> 7" by simp
  note r = region_mask_matches_count [OF demo_train_mix out c]
  have m: "ex_image_mask out = replicate 7 1 @ replicate 53 0"
    using r by (simp add: demo_dataset_sel)
  have m7: "ex_image_mask out ! 7 = 0" by (simp add: m nth_append)
  have "ex_target out ! 7 = [Val 0]" using r m7 by (simp add: demo_dataset_sel)
  moreover have "length (filter (\<lambda>v. v = 1) (ex_image_mask out)) = 7" using r by simp
  moreover have "length (ex_target out) = 60" using r by (simp add: demo_dataset_sel)
  ultimately show ?thesis using out m m7 by blast
qed

text \<open>
  The same fetch: row 1 is the second detector region, row 3 the ground-truth region of
  index 1 (index 0 is dropped), row 6 the last ground-truth region, rows 7 to 59 are zero.
\<close>

theorem packed_regions_copy_and_zero_witness:
  "\<exists>out. getitem exact_runtime (demo_dataset ''train'' 60 demo_det demo_gt) 0 = Inr out \<and>
     length (ex_features out) = 60 \<and> length (ex_spatials out) = 60 \<and>
     ex_features out ! 1 = replicate 2048 100 \<and>
     ex_spatials out ! 3 = [10 / 512, 10 / 512, 21 / 512, 21 / 512, 1] \<and>
     ex_features out ! 6 = replicate 2048 200 \<and>
     ex_spatials out ! 6 = [200 / 512, 200 / 512, 210 / 512, 210 / 512, 1] \<and>
     ex_features out ! 7 = replicate 2048 0 \<and>
     ex_spatials out ! 59 = replicate 5 0"
proof -
  obtain out where out: "getitem exact_runtime (demo_dataset ''train'' 60 demo_det demo_gt) 0 = Inr out"
    using demo_train_getitem by blast
  have c: "(0::int) \<le> 7" by simp
  have rows: "nat 7 \<le> length (rd_features (demo_regions 7 demo_mixed))"
    "nat 7 \<le> length (rd_boxes (demo_regions 7 demo_mixed))"
    by (simp_all add: demo_mixed_rows)
  have r: "length (ex_features out) = 60 \<and> length (ex_spatials out) = 60 \<and>
      (\<forall>i < 60. ex_features out ! i =
          (if i < 7 then rd_features (demo_regions 7 demo_mixed) ! i else replicate 2048 0) \<and>
        ex_spatials out ! i =
          (if i < 7 then rd_boxes (demo_regions 7 demo_mixed) ! i else replicate 5 0))"
    using packed_regions_copy_and_zero [OF demo_train_mix out c rows]
    by (simp add: demo_dataset_sel)
  have "ex_features out ! 1 = replicate 2048 100"
    "ex_spatials out ! 3 = [10 / 512, 10 / 512, 21 / 512, 21 / 512, 1]"
    "ex_features out ! 6 = replicate 2048 200"
    "ex_spatials out ! 6 = [200 / 512, 200 / 512, 210 / 512, 210 / 512, 1]"
    "ex_features out ! 7 = replicate 2048 0" "ex_spatials out ! 59 = replicate 5 0"
    using r by (simp_all add: demo_mixed_rows)
  then show ?thesis using out r by blast
qed

text \<open>
  Claim C1, as amended. For every example the fetch returns and every valid position
  \<open>i\<close> (mask 1), with a merged box list that holds the rows counted and well-formed
  boxes: the overlap of candidate \<open>i\<close> with the target box is a number \<open>v \<ge> 0\<close>. In
  training mode the label is 0 when \<open>v < 0.5\<close> and otherwise \<open>v\<close> itself, stored in
  binary32, which is at least 0.5: the raw overlap, not rounded to 1. In evaluation mode
  the label is \<open>v\<close> stored in binary32, whatever its size: no threshold is applied.
\<close>

theorem labels_are_thresholded_overlaps:
  assumes mix: "getitem_mix rt ds index = Inr (e, mbo, mb, mf, c, mt)"
    and ret: "getitem rt ds index = Inr out"
    and i: "i < length (ex_image_mask out)" "ex_image_mask out ! i = 1"
    and rows: "nat c \<le> length mbo"
    and r: "rounding (f32 rt)" "rounding (f64 rt)"
    and wf: "wf_box (mbo ! i)" "wf_box (corners rt (refBox e))"
  shows "i < length mbo \<and>
         (\<exists>v. overlap rt (mbo ! i) (corners rt (refBox e)) = Val v \<and> 0 \<le> v \<and>
            (split ds = ''train'' \<longrightarrow>
               ex_target out ! i = [if v < 1 / 2 then Val 0 else Val (f32 rt v)] \<and>
               (1 / 2 \<le> v \<longrightarrow> 1 / 2 \<le> f32 rt v)) \<and>
            (split ds \<noteq> ''train'' \<longrightarrow> ex_target out ! i = [Val (f32 rt v)]))"
proof -
  let ?R = "max_region_num ds" and ?q = "corners rt (refBox e)"
  have p: "getitem_pack rt ds e mb mf c mt = Inr out" using ret getitem_Inr [OF mix] by simp
  have le: "c \<le> ?R" by (rule getitem_mix_count_le [OF mix])
  have m: "ex_image_mask out = replicate (nat c) 1 @ replicate (nat ?R - nat c) 0"
    using getitem_pack_Inr(3) [OF p] image_mask_eq [OF le] by simp
  have ic: "i < nat c"
  proof (rule ccontr)
    assume n: "\<not> i < nat c"
    moreover have "i < nat c + (nat ?R - nat c)" using i(1) by (simp add: m)
    ultimately have "i - nat c < nat ?R - nat c" by linarith
    then have "ex_image_mask out ! i = 0" using n by (simp add: m nth_append)
    then show False using i(2) by simp
  qed
  then have c0: "0 \<le> c" by simp
  have il: "i < length mbo" using ic rows by simp
  have t: "set_value_rows rt c (replicate (nat ?R) [Val 0]) mt = Inr (ex_target out)"
    by (rule getitem_pack_Inr(6) [OF p])
  have dl: "nat c \<le> length (replicate (nat ?R) [Val (0::real)])" using le by simp
  have ml: "nat c \<le> length mt" using rows getitem_mix_target_rows [OF mix] by simp
  have lab: "ex_target out ! i = map (to32 rt) (mt ! i)"
    by (rule set_value_rows_head [OF t c0 dl ic ml])
  obtain v where v: "overlap rt (mbo ! i) ?q = Val v" "0 \<le> v"
    using overlap_wf [OF r wf] by blast
  note mt = getitem_mix_target [OF mix]
  have train: "ex_target out ! i = [if v < 1 / 2 then Val 0 else Val (f32 rt v)]"
    if "split ds = ''train''"
  proof -
    have "mt ! i = [zero_below_half (Val v)]" using mt that il v(1) by (simp add: iou_def)
    then show ?thesis using lab by (simp add: zero_below_half_def rounding_zero [OF r(1)])
  qed
  have keep: "1 / 2 \<le> f32 rt v" if "1 / 2 \<le> v"
    using rounding_mono [OF r(1) that] rounding_one(3) [OF r(1)] by simp
  have eval: "ex_target out ! i = [Val (f32 rt v)]" if "split ds \<noteq> ''train''"
  proof -
    have "mt ! i = [Val v]" using mt that il v(1) by (simp add: iou_def)
    then show ?thesis using lab by simp
  qed
  show ?thesis using il v train keep eval by blast
qed

lemma demo_eval_mix:
  "getitem_mix exact_runtime
     (demo_dataset ''val'' 60 (demo_regions 1 [(10, 10, 21, 21)]) demo_gt) 0 =
     Inr (demo_entry, [(10, 10, 21, 21)], rd_boxes (demo_regions 1 [(10, 10, 21, 21)]),
       rd_features (demo_regions 1 [(10, 10, 21, 21)]), 1, [[Val (1 / 4)]])"
  by (simp add: getitem_mix_def demo_dataset_def demo_regions_def demo_entry_def eval_defs)

lemma demo_eval_getitem:
  "\<exists>out. getitem exact_runtime
       (demo_dataset ''val'' 60 (demo_regions 1 [(10, 10, 21, 21)]) demo_gt) 0 = Inr out \<and>
     ex_image_mask out = replicate 1 1 @ replicate 59 0 \<and>
     ex_target out = [[Val (1 / 4)]] @ replicate 59 [Val 0]"
  by (subst getitem_Inr [OF demo_eval_mix])
    (simp add: pack_defs demo_regions_def exact_runtime_def)

text \<open>
  Claim C1 as stated fails in evaluation mode: the detector box \<open>(10, 10, 21, 21)\<close>
  against the target box \<open>(10, 10, 15, 15)\<close> has intersection 36, union 144 and overlap
  \<open>1 / 4\<close>, and the fetch returns this label, nonzero and below 0.5, at a position whose
  mask is 1.
\<close>

theorem eval_label_below_half_counterexample:
  "fetch_label exact_runtime
     (demo_dataset ''val'' 60 (demo_regions 1 [(10, 10, 21, 21)]) demo_gt) 0 0 =
     Inr (1, [Val (1 / 4)]) \<and> (0::real) < 1 / 4 \<and> (1 / 4 :: real) < 1 / 2"
  using demo_eval_getitem by (auto simp: fetch_label_def)

text \<open>
  In training mode the overlap \<open>3 / 4\<close> of the box \<open>(10, 10, 15, 17)\<close> is kept as it is
  (position 4) and the overlap \<open>1 / 4\<close> of the box \<open>(10, 10, 21, 21)\<close> is zeroed
  (position 3).
\<close>

theorem labels_are_thresholded_overlaps_witness:
  "\<exists>out. getitem exact_runtime (demo_dataset ''train'' 60 demo_det demo_gt) 0 = Inr out \<and>
     ex_image_mask out ! 4 = 1 \<and>
     overlap exact_runtime (demo_mixed ! 4) (corners exact_runtime (refBox demo_entry)) =
       Val (3 / 4) \<and>
     ex_target out ! 4 = [Val (3 / 4)] \<and>
     ex_image_mask out ! 3 = 1 \<and>
     overlap exact_runtime (demo_mixed ! 3) (corners exact_runtime (refBox demo_entry)) =
       Val (1 / 4) \<and>
     ex_target out ! 3 = [Val 0]"
proof -
  obtain out where out: "getitem exact_runtime (demo_dataset ''train'' 60 demo_det demo_gt) 0 = Inr out"
    and m: "ex_image_mask out = replicate 7 1 @ replicate 53 0"
    using demo_train_getitem by blast
  have i4: "4 < length (ex_image_mask out)" "ex_image_mask out ! 4 = 1"
    and i3: "3 < length (ex_image_mask out)" "ex_image_mask out ! 3 = 1"
    by (simp_all add: m nth_append)
  have rows: "nat 7 \<le> length demo_mixed" by (simp add: demo_mixed_def)
  have wq: "wf_box (corners exact_runtime (refBox demo_entry))"
    by (simp add: demo_entry_def corners_def wf_box_def exact_runtime_def)
  have w4: "wf_box (demo_mixed ! 4)" and w3: "wf_box (demo_mixed ! 3)"
    by (simp_all add: demo_mixed_def wf_box_def)
  have o4: "overlap exact_runtime (demo_mixed ! 4) (corners exact_runtime (refBox demo_entry)) =
      Val (3 / 4)"
    and o3: "overlap exact_runtime (demo_mixed ! 3) (corners exact_runtime (refBox demo_entry)) =
      Val (1 / 4)"
    by (simp_all add: demo_mixed_def demo_entry_def corners_def exact_defs)
  have f: "f32 exact_runtime v = v" for v by (simp add: exact_runtime_def)
  have t4: "ex_target out ! 4 = [Val (3 / 4)]"
  proof -
    obtain v where v: "overlap exact_runtime (demo_mixed ! 4)
          (corners exact_runtime (refBox demo_entry)) = Val v"
      and l: "split (demo_dataset ''train'' 60 demo_det demo_gt) = ''train'' \<longrightarrow>
          ex_target out ! 4 = [if v < 1 / 2 then Val 0 else Val (f32 exact_runtime v)] \<and>
          (1 / 2 \<le> v \<longrightarrow> 1 / 2 \<le> f32 exact_runtime v)"
      using labels_are_thresholded_overlaps [OF demo_train_mix out i4 rows exact_rounding w4 wq]
      by blast
    have "v = 3 / 4" using v o4 by simp
    then show ?thesis using l by (simp add: demo_dataset_sel f)
  qed
  have t3: "ex_target out ! 3 = [Val 0]"
  proof -
    obtain v where v: "overlap exact_runtime (demo_mixed ! 3)
          (corners exact_runtime (refBox demo_entry)) = Val v"
      and l: "split (demo_dataset ''train'' 60 demo_det demo_gt) = ''train'' \<longrightarrow>
          ex_target out ! 3 = [if v < 1 / 2 then Val 0 else Val (f32 exact_runtime v)] \<and>
          (1 / 2 \<le> v \<longrightarrow> 1 / 2 \<le> f32 exact_runtime v)"
      using labels_are_thresholded_overlaps [OF demo_train_mix out i3 rows exact_rounding w3 wq]
      by blast
    have "v = 1 / 4" using v o3 by simp
    then show ?thesis using l by (simp add: demo_dataset_sel f)
  qed
  show ?thesis using out i4(2) i3(2) o4 o3 t4 t3 by blast
qed

lemma py_upto_take: "0 \<le> n \<Longrightarrow> py_upto n xs = take (nat n) xs"
  by (simp add: py_upto_def slice_stop_def min_def)

lemma py_from1_upto_take: "0 \<le> n \<Longrightarrow> py_from1_upto n xs = drop 1 (take (nat n) xs)"
  by (simp add: py_from1_upto_def slice_stop_def min_def)

lemma merged_length:
  assumes "0 \<le> n" "1 \<le> g" "nat n \<le> length xs" "nat g \<le> length ys"
  shows "int (length (spec_candidates n xs g ys)) = n + g - 1"
proof -
  have "length (spec_candidates n xs g ys) = nat n + (nat g - 1)"
    using assms(3,4) by (simp add: spec_candidates_def)
  then show ?thesis using assms(1,2) by linarith
qed

lemma merged_nth_det:
  assumes "nat n \<le> length xs" "i < nat n"
  shows "spec_candidates n xs g ys ! i = xs ! i"
  using assms by (simp add: spec_candidates_def nth_append)

lemma merged_nth_gt:
  assumes "nat n \<le> length xs" "nat g \<le> length ys" "Suc j < nat g"
  shows "spec_candidates n xs g ys ! (nat n + j) = ys ! Suc j"
  using assms by (simp add: spec_candidates_def nth_append)

lemma getitem_pack_returns:
  assumes "0 \<le> c" "c \<le> max_region_num ds" "0 \<le> max_seq_length ds"
    and "nat c \<le> length mb" "nat c \<le> length mf" "length mt = nat c"
  shows "\<exists>out. getitem_pack rt ds e mb mf c mt = Inr out"
proof -
  have s: "slice_stop c (nat (max_region_num ds)) = nat c"
    using assms(1,2) by (simp add: slice_stop_def)
  have l: "length (py_upto c mb) = nat c" "length (py_upto c mf) = nat c"
    using assms(1,4,5) by (simp_all add: py_upto_take)
  have r: "\<not> max_region_num ds < 0" using assms(1,2) by simp
  have a1: "assign_rows BroadcastError c (replicate (nat (max_region_num ds)) (replicate 5 0))
      (py_upto c mb) = Inr (py_upto c mb @ drop (nat c) (replicate (nat (max_region_num ds)) (replicate 5 0)))"
    by (simp add: assign_rows_def s l)
  have a2: "assign_rows BroadcastError c (replicate (nat (max_region_num ds)) (replicate 2048 0))
      (py_upto c mf) = Inr (py_upto c mf @ drop (nat c) (replicate (nat (max_region_num ds)) (replicate 2048 0)))"
    by (simp add: assign_rows_def s l)
  have a3: "\<exists>t. set_value_rows rt c (replicate (nat (max_region_num ds)) [Val 0]) mt = Inr t"
    by (simp add: set_value_rows_def s assms(6) Let_def)
  then obtain t where a3: "set_value_rows rt c (replicate (nat (max_region_num ds)) [Val 0]) mt = Inr t"
    by blast
  show ?thesis
    unfolding getitem_pack_def Let_def a1 a2 a3 using r assms(3) by simp
qed


lemma getitem_mix_train:
  assumes tr: "split ds = ''train''"
    and e: "py_index (entries ds) index = Some e"
    and det: "image_features_reader ds (image_id e) = Some det"
    and gt: "gt_image_features_reader ds (image_id e) = Some gt"
    and n: "0 \<le> rd_num_boxes det" and g: "0 \<le> rd_num_boxes gt"
  shows "getitem_mix rt ds index =
     Inr (e, spec_candidates (rd_num_boxes det) (rd_boxes_ori det) (rd_num_boxes gt) (rd_boxes_ori gt),
          spec_candidates (rd_num_boxes det) (rd_boxes det) (rd_num_boxes gt) (rd_boxes gt),
          spec_candidates (rd_num_boxes det) (rd_features det) (rd_num_boxes gt) (rd_features gt),
          min (rd_num_boxes det + rd_num_boxes gt - 1) (max_region_num ds),
          map (map zero_below_half)
            (iou rt (spec_candidates (rd_num_boxes det) (rd_boxes_ori det) (rd_num_boxes gt)
                    (rd_boxes_ori gt)) [corners rt (refBox e)]))"
  by (simp add: getitem_mix_def e det gt tr Let_def py_upto_take [OF n]
      py_from1_upto_take [OF g] spec_candidates_def)

text \<open>
  Claim C3. In training mode, for stores that hold the rows they report valid (detector
  count \<open>n \<ge> 0\<close>, ground-truth count \<open>g \<ge> 1\<close>): the merged boxes and features are all
  \<open>n\<close> detector rows followed by the ground-truth rows 1 to \<open>g - 1\<close> in that order, row 0
  of the ground truth being dropped; there are \<open>n + g - 1\<close> of them; the count reported
  is \<open>min (n + g - 1) max_region_num\<close>; and when \<open>n + g - 1\<close> fits into
  \<open>max_region_num\<close> the fetch returns a mask with exactly that many ones.
\<close>

theorem training_merge_order_and_count:
  assumes tr: "split ds = ''train''"
    and e: "py_index (entries ds) index = Some e"
    and det: "image_features_reader ds (image_id e) = Some det"
    and gt: "gt_image_features_reader ds (image_id e) = Some gt"
    and n: "0 \<le> rd_num_boxes det" "store_rows_ok det"
    and g: "1 \<le> rd_num_boxes gt" "store_rows_ok gt"
  shows "getitem_mix rt ds index =
     Inr (e, spec_candidates (rd_num_boxes det) (rd_boxes_ori det) (rd_num_boxes gt) (rd_boxes_ori gt),
          spec_candidates (rd_num_boxes det) (rd_boxes det) (rd_num_boxes gt) (rd_boxes gt),
          spec_candidates (rd_num_boxes det) (rd_features det) (rd_num_boxes gt) (rd_features gt),
          min (rd_num_boxes det + rd_num_boxes gt - 1) (max_region_num ds),
          map (map zero_below_half)
            (iou rt (spec_candidates (rd_num_boxes det) (rd_boxes_ori det) (rd_num_boxes gt)
                    (rd_boxes_ori gt)) [corners rt (refBox e)])) \<and>
     int (length (spec_candidates (rd_num_boxes det) (rd_features det) (rd_num_boxes gt) (rd_features gt)))
       = rd_num_boxes det + rd_num_boxes gt - 1 \<and>
     (\<forall>i < nat (rd_num_boxes det).
        spec_candidates (rd_num_boxes det) (rd_features det) (rd_num_boxes gt) (rd_features gt) ! i =
          rd_features det ! i) \<and>
     (\<forall>j. Suc j < nat (rd_num_boxes gt) \<longrightarrow>
        spec_candidates (rd_num_boxes det) (rd_features det) (rd_num_boxes gt) (rd_features gt) !
          (nat (rd_num_boxes det) + j) = rd_features gt ! Suc j) \<and>
     (rd_num_boxes det + rd_num_boxes gt - 1 \<le> max_region_num ds \<and> 0 \<le> max_seq_length ds \<longrightarrow>
        (\<exists>out. getitem rt ds index = Inr out \<and>
           ex_image_mask out =
             replicate (nat (rd_num_boxes det + rd_num_boxes gt - 1)) 1 @
             replicate (nat (max_region_num ds) -
                        nat (rd_num_boxes det + rd_num_boxes gt - 1)) 0))"
proof -
  let ?n = "rd_num_boxes det" and ?g = "rd_num_boxes gt" and ?R = "max_region_num ds"
  let ?mbo = "spec_candidates ?n (rd_boxes_ori det) ?g (rd_boxes_ori gt)"
  let ?mb = "spec_candidates ?n (rd_boxes det) ?g (rd_boxes gt)"
  let ?mf = "spec_candidates ?n (rd_features det) ?g (rd_features gt)"
  let ?mt = "map (map zero_below_half) (iou rt ?mbo [corners rt (refBox e)])"
  have g0: "0 \<le> ?g" using g(1) by simp
  have mix: "getitem_mix rt ds index = Inr (e, ?mbo, ?mb, ?mf, min (?n + ?g - 1) ?R, ?mt)"
    by (rule getitem_mix_train [OF tr e det gt n(1) g0])
  have rn: "nat ?n \<le> length (rd_features det)" "nat ?n \<le> length (rd_boxes det)"
    "nat ?n \<le> length (rd_boxes_ori det)"
    using n(2) by (simp_all add: store_rows_ok_def)
  have rg: "nat ?g \<le> length (rd_features gt)" "nat ?g \<le> length (rd_boxes gt)"
    "nat ?g \<le> length (rd_boxes_ori gt)"
    using g(2) by (simp_all add: store_rows_ok_def)
  have lf: "int (length ?mf) = ?n + ?g - 1" by (rule merged_length [OF n(1) g(1) rn(1) rg(1)])
  have lb: "int (length ?mb) = ?n + ?g - 1" by (rule merged_length [OF n(1) g(1) rn(2) rg(2)])
  have lo: "int (length ?mbo) = ?n + ?g - 1" by (rule merged_length [OF n(1) g(1) rn(3) rg(3)])
  have det_rows: "\<forall>i < nat ?n. ?mf ! i = rd_features det ! i"
    using merged_nth_det [OF rn(1)] by blast
  have gt_rows: "\<forall>j. Suc j < nat ?g \<longrightarrow> ?mf ! (nat ?n + j) = rd_features gt ! Suc j"
    using merged_nth_gt [OF rn(1) rg(1)] by blast
  have fetch: "\<exists>out. getitem rt ds index = Inr out \<and>
      ex_image_mask out =
        replicate (nat (?n + ?g - 1)) 1 @ replicate (nat ?R - nat (?n + ?g - 1)) 0"
    if fits: "?n + ?g - 1 \<le> ?R \<and> 0 \<le> max_seq_length ds"
  proof -
    have c: "min (?n + ?g - 1) ?R = ?n + ?g - 1" using fits by simp
    have c0: "0 \<le> ?n + ?g - 1" using n(1) g(1) by simp
    have lt: "length ?mt = nat (?n + ?g - 1)" using lo by (simp add: iou_def)
    have l1: "nat (?n + ?g - 1) \<le> length ?mb" using lb by linarith
    have l2: "nat (?n + ?g - 1) \<le> length ?mf" using lf by linarith
    obtain out where out: "getitem_pack rt ds e ?mb ?mf (?n + ?g - 1) ?mt = Inr out"
      using getitem_pack_returns [OF c0 _ _ l1 l2 lt] fits by blast
    have "getitem rt ds index = Inr out" using getitem_Inr [OF mix] out c by simp
    moreover have "ex_image_mask out =
        replicate (nat (?n + ?g - 1)) 1 @ replicate (nat ?R - nat (?n + ?g - 1)) 0"
      using getitem_pack_Inr(3) [OF out] image_mask_eq [of "?n + ?g - 1" ?R] fits by simp
    ultimately show ?thesis by blast
  qed
  show ?thesis
    apply (intro conjI)
        apply (rule mix)
       apply (rule lf)
      apply (rule det_rows)
     apply (rule gt_rows)
    apply (rule impI)
    apply (erule fetch)
    done
qed


lemma demo_store_rows_ok: "store_rows_ok demo_det" "store_rows_ok demo_gt"
  by (simp_all add: store_rows_ok_def demo_det_def demo_gt_def demo_regions_def)

lemma demo_merged: "spec_candidates 3 (rd_boxes_ori demo_det) 5 (rd_boxes_ori demo_gt) = demo_mixed"
  by (simp add: spec_candidates_def demo_det_def demo_gt_def demo_regions_def demo_mixed_def)

text \<open>Scenario B of the specification: 3 and 5 regions, capacity 60, count 7.\<close>

theorem training_merge_order_and_count_witness:
  "(\<exists>mb mf mt. getitem_mix exact_runtime (demo_dataset ''train'' 60 demo_det demo_gt) 0 =
      Inr (demo_entry, demo_mixed, mb, mf, 7, mt) \<and> length mf = 7) \<and>
   (\<exists>out. getitem exact_runtime (demo_dataset ''train'' 60 demo_det demo_gt) 0 = Inr out \<and>
      ex_image_mask out = replicate 7 1 @ replicate 53 0)"
proof -
  let ?D = "demo_dataset ''train'' 60 demo_det demo_gt"
  have tr: "split ?D = ''train''" by (simp add: demo_dataset_sel)
  have e: "py_index (entries ?D) 0 = Some demo_entry"
    by (simp add: demo_dataset_def py_index_def)
  have det: "image_features_reader ?D (image_id demo_entry) = Some demo_det"
    by (simp add: demo_dataset_def demo_entry_def)
  have gt: "gt_image_features_reader ?D (image_id demo_entry) = Some demo_gt"
    by (simp add: demo_dataset_def demo_entry_def)
  have n: "rd_num_boxes demo_det = 3" "rd_num_boxes demo_gt = 5"
    by (simp_all add: demo_det_def demo_gt_def demo_regions_def)
  have n0: "0 \<le> rd_num_boxes demo_det" "1 \<le> rd_num_boxes demo_gt" by (simp_all add: n)
  note t = training_merge_order_and_count
    [OF tr e det gt n0(1) demo_store_rows_ok(1) n0(2) demo_store_rows_ok(2),
     unfolded n demo_merged demo_dataset_sel]
  have a: "\<exists>mb mf mt. getitem_mix exact_runtime ?D 0 = Inr (demo_entry, demo_mixed, mb, mf, 7, mt) \<and>
      length mf = 7"
    using t by simp
  have b: "\<exists>out. getitem exact_runtime ?D 0 = Inr out \<and> ex_image_mask out = replicate 7 1 @ replicate 53 0"
    using t by simp
  show ?thesis using a b by blast
qed

lemma demo_overflow_mix:
  "getitem_mix rt (demo_dataset ''val'' 60 (demo_regions 70 (replicate 70 (10, 10, 15, 15))) demo_gt) 0 =
     Inr (demo_entry, replicate 70 (10, 10, 15, 15),
       replicate 70 [10 / 512, 10 / 512, 15 / 512, 15 / 512, 1],
       replicate 70 (replicate 2048 10), 60,
       replicate 70 [overlap rt (10, 10, 15, 15) (corners rt (10, 10, 5, 5))])"
  by (simp add: getitem_mix_def demo_dataset_def demo_regions_def demo_entry_def
      py_index_def py_upto_def slice_stop_def iou_def Let_def)

text \<open>
  Claim C2 at its own input: evaluation mode, 70 valid detector regions, capacity 60. The
  merged count is 60 and features and spatials are cut to 60 rows (lines 205 and 206),
  but the label array keeps its 70 rows, and line 214 assigns them to a slice of 60 rows:
  the fetch raises instead of returning, whatever the rounding.
\<close>

theorem eval_overflow_fetch_raises:
  "getitem rt (demo_dataset ''val'' 60 (demo_regions 70 (replicate 70 (10, 10, 15, 15))) demo_gt) 0 =
     Inl SetValueShapeError"
  by (subst getitem_Inr [OF demo_overflow_mix]) (simp add: pack_defs)






lemma demo_one_det_mix:
  "getitem_mix exact_runtime (demo_dataset ''train'' 60
       (demo_regions 1 [(10, 10, 15, 15)]) (demo_regions 0 [])) 0 =
     Inr (demo_entry, [(10, 10, 15, 15)], [[10 / 512, 10 / 512, 15 / 512, 15 / 512, 1]],
       [replicate 2048 10], 0, [[Val 1]])"
  by (simp add: getitem_mix_def demo_dataset_def demo_regions_def demo_entry_def eval_defs)


text \<open>
  The failure of line 214 in general: the label array has one row per merged box and is
  never cut to the count, so no example is returned when the count is at least 1 and the
  number of merged boxes is neither 0, nor the count, nor 1.
\<close>

lemma fetch_raises_when_rows_exceed_count:
  assumes mix: "getitem_mix rt ds index = Inr (e, mbo, mb, mf, c, mt)"
    and c1: "1 \<le> c"
    and rows: "length mbo \<noteq> 0" "length mbo \<noteq> nat c" "length mbo \<noteq> 1"
  shows "getitem rt ds index \<noteq> Inr out"
proof
  assume ret: "getitem rt ds index = Inr out"
  have p: "getitem_pack rt ds e mb mf c mt = Inr out" using ret getitem_Inr [OF mix] by simp
  have le: "c \<le> max_region_num ds" by (rule getitem_mix_count_le [OF mix])
  have c0: "0 \<le> c" using c1 by simp
  have dl: "nat c \<le> length (replicate (nat (max_region_num ds)) [Val (0::real)])"
    using le by simp
  have "length mt = 0 \<or> length mt = nat c \<or> length mt = 1"
    using getitem_pack_Inr(6) [OF p] c0 dl
    by (cases rule: set_value_rows_cases) (use c1 in simp_all)
  then show False using rows getitem_mix_target_rows [OF mix] by simp
qed

end
